theory Spec2Isabelle
  imports Main "HOL-Library.Word"
begin

unbundle bit_operations_syntax

section \<open>Feature state: reported values and defaults\<close>

text \<open>
  The feature state objects (\<^verbatim>\<open>features/common/common_state.go\<close>,
  \<^verbatim>\<open>features/ardrone3/piloting_settings_state.go\<close>) keep every attribute behind a
  pointer that is \<^verbatim>\<open>nil\<close> until the device has reported a value. A pointer field is
  an \<open>option\<close> here. The handlers receive \<^verbatim>\<open>args []interface{}\<close> and read it with
  type assertions such as \<^verbatim>\<open>args[0].(uint8)\<close>, which panic when the index is out of
  range or the dynamic type differs: the decoded arguments are a list of tagged values
  and a handler returns \<open>Inl\<close> of the panic or \<open>Inr\<close> of the updated state. A
  \<^verbatim>\<open>float32\<close> is stored and returned only, never computed with, so it is kept as its
  32-bit pattern (the zero value is the pattern 0). The read/write lock and the log
  calls have no effect on the stored values and are left out.
\<close>

datatype arg =
    Uint8 "8 word"
  | Uint16 "16 word"
  | Uint32 "32 word"
  | Uint64 "64 word"
  | Int16 "16 word"
  | Int32 "32 word"
  | Float32 "32 word"
  | String string

datatype panic = IndexOutOfRange | TypeAssertionFailed | AssignmentToNilMap

definition bind_r :: "'e + 'a \<Rightarrow> ('a \<Rightarrow> 'e + 'b) \<Rightarrow> 'e + 'b" where
  "bind_r m f = (case m of Inl e \<Rightarrow> Inl e | Inr a \<Rightarrow> f a)"

text \<open>\<^verbatim>\<open>args[i].(uint8)\<close>, \<^verbatim>\<open>args[i].(uint16)\<close>, \<^verbatim>\<open>args[i].(int16)\<close>,
  \<^verbatim>\<open>args[i].(int32)\<close>, \<^verbatim>\<open>args[i].(string)\<close>, \<^verbatim>\<open>args[i].(float32)\<close>.\<close>

definition as_uint8 :: "arg list \<Rightarrow> nat \<Rightarrow> panic + 8 word" where
  "as_uint8 args i =
     (if i < length args
      then (case args ! i of Uint8 v \<Rightarrow> Inr v | _ \<Rightarrow> Inl TypeAssertionFailed)
      else Inl IndexOutOfRange)"



definition as_int32 :: "arg list \<Rightarrow> nat \<Rightarrow> panic + 32 word" where
  "as_int32 args i =
     (if i < length args
      then (case args ! i of Int32 v \<Rightarrow> Inr v | _ \<Rightarrow> Inl TypeAssertionFailed)
      else Inl IndexOutOfRange)"

definition as_string :: "arg list \<Rightarrow> nat \<Rightarrow> panic + string" where
  "as_string args i =
     (if i < length args
      then (case args ! i of String v \<Rightarrow> Inr v | _ \<Rightarrow> Inl TypeAssertionFailed)
      else Inl IndexOutOfRange)"


subsection \<open>commonState\<close>



















subsection \<open>pilotingSettingsState\<close>





















subsection \<open>accessoryState\<close>

text \<open>
  The accessory state (the first of the unnamed sources) keeps the connected
  accessories in a map from the accessory's identifier, which \<^verbatim>\<open>Accessories()\<close>
  returns as it is. The struct \<^verbatim>\<open>accessory\<close> is declared outside the sources; its fields
  are those the handlers assign (\<open>acc_id\<close> and \<open>acc_batteryPercent\<close> for \<^verbatim>\<open>id\<close> and
  \<^verbatim>\<open>batteryPercent\<close>). The constructor of the state is outside the sources too, so the
  map may be \<^verbatim>\<open>nil\<close> (\<open>None\<close>) or allocated: reading and deleting treat a \<^verbatim>\<open>nil\<close> map
  as an empty one, assigning into it panics. The map holds pointers: the handler
  updates the accessory that the map holds.
\<close>

record accessory =
  acc_id :: "8 word"
  tipe :: "32 word"
  uid :: string
  softwareVersion :: string
  acc_batteryPercent :: "8 word"

type_synonym accessoryState = "(8 word \<rightharpoonup> accessory) option"

text \<open>\<^verbatim>\<open>&accessory{id: accessoryID}\<close>\<close>

definition new_accessory :: "8 word \<Rightarrow> accessory" where
  "new_accessory i =
     \<lparr>acc_id = i, tipe = 0, uid = [], softwareVersion = [], acc_batteryPercent = 0\<rparr>"

text \<open>\<^verbatim>\<open>delete(a.accessories, accessoryID)\<close>\<close>

definition delete_accessory :: "accessoryState \<Rightarrow> 8 word \<Rightarrow> accessoryState" where
  "delete_accessory a i = (case a of None \<Rightarrow> None | Some m \<Rightarrow> Some (m(i := None)))"

text \<open>\<^verbatim>\<open>acc, ok := a.accessories[accessoryID]\<close>\<close>

definition lookup_accessory :: "accessoryState \<Rightarrow> 8 word \<Rightarrow> accessory option" where
  "lookup_accessory a i = (case a of None \<Rightarrow> None | Some m \<Rightarrow> m i)"

text \<open>The accessory that the handler goes on to update: the one in the map, or a new
  one that it first puts into the map.\<close>

definition add_or_get :: "accessoryState \<Rightarrow> 8 word \<Rightarrow> panic + (8 word \<rightharpoonup> accessory) \<times> accessory" where
  "add_or_get a i =
     (case lookup_accessory a i of
        Some acc \<Rightarrow> (case a of Some m \<Rightarrow> Inr (m, acc) | None \<Rightarrow> Inl AssignmentToNilMap)
      | None \<Rightarrow>
          (case a of
             None \<Rightarrow> Inl AssignmentToNilMap
           | Some m \<Rightarrow> Inr (m(i \<mapsto> new_accessory i), new_accessory i)))"

definition connectedAccessories :: "arg list \<Rightarrow> accessoryState \<Rightarrow> panic + accessoryState" where
  "connectedAccessories args a =
     bind_r (as_uint8 args 4) (\<lambda>flags.
       if flags AND 4 = 4 then Inr a
       else
     bind_r (as_uint8 args 0) (\<lambda>accessoryID.
       if flags AND 8 = 8 then Inr (delete_accessory a accessoryID)
       else
     bind_r (add_or_get a accessoryID) (\<lambda>(m, acc).
     bind_r (as_int32 args 1) (\<lambda>a1.
     bind_r (as_string args 2) (\<lambda>a2.
     bind_r (as_string args 3) (\<lambda>a3.
       Inr (Some (m(accessoryID \<mapsto>
                    acc\<lparr>tipe := a1, uid := a2, softwareVersion := a3\<rparr>)))))))))"

definition battery :: "arg list \<Rightarrow> accessoryState \<Rightarrow> panic + accessoryState" where
  "battery args a =
     bind_r (as_uint8 args 2) (\<lambda>flags.
       if flags AND 4 = 4 then Inr a
       else
     bind_r (as_uint8 args 0) (\<lambda>accessoryID.
       if flags AND 8 = 8 then Inr (delete_accessory a accessoryID)
       else
     bind_r (add_or_get a accessoryID) (\<lambda>(m, acc).
     bind_r (as_uint8 args 1) (\<lambda>a1.
       Inr (Some (m(accessoryID \<mapsto> acc\<lparr>acc_batteryPercent := a1\<rparr>)))))))"

definition Accessories :: "accessoryState \<Rightarrow> (8 word \<rightharpoonup> accessory) option" where
  "Accessories a = a"

section \<open>Frames and the frame codec\<close>

type_synonym bytes = "8 word list"

text \<open>A Go \<^verbatim>\<open>error\<close> is kept as its message; \<^verbatim>\<open>nil\<close> is \<open>None\<close> of
  \<open>error option\<close>, and a function returning \<^verbatim>\<open>(T, error)\<close> returns \<open>error + T\<close>.\<close>

type_synonym error = string

text \<open>Modelled from the spec: the declaration of \<^verbatim>\<open>arnetworkal.Frame\<close> and of the
  frame type constants is not among the sources. The fields are those that
  \<^verbatim>\<open>writeFrame\<close> sets (\<^verbatim>\<open>ID\<close>, \<^verbatim>\<open>Type\<close>, \<^verbatim>\<open>Seq\<close>, \<^verbatim>\<open>Data\<close>); identifier and
  sequence number are one byte each (\<^verbatim>\<open>c.seq\<close> is a \<^verbatim>\<open>uint8\<close>), the type is the byte
  the wire format carries, numbered as the spec's table does: Data = 1,
  DataLowLatency = 2, DataWithAck = 3, Ack = 4.\<close>

type_synonym FrameType = "8 word"

record netFrame =
  ID :: "8 word"
  Type :: FrameType
  Seq :: "8 word"
  Data :: bytes

definition FrameTypeData :: FrameType where
  "FrameTypeData = 1"

definition FrameTypeDataLowLatency :: FrameType where
  "FrameTypeDataLowLatency = 2"

definition FrameTypeDataWithAck :: FrameType where
  "FrameTypeDataWithAck = 3"

definition FrameTypeAck :: FrameType where
  "FrameTypeAck = 4"

text \<open>The zero value \<^verbatim>\<open>arnetworkal.Frame{}\<close>.\<close>

definition zeroFrame :: netFrame where
  "zeroFrame = \<lparr>ID = 0, Type = 0, Seq = 0, Data = []\<rparr>"

text \<open>Modelled from the spec: \<^verbatim>\<open>defaultEncodeFrame\<close> and \<^verbatim>\<open>defaultDecodeData\<close> are
  named in \<^verbatim>\<open>connection.go\<close> but defined in a file that is not among the sources.
  The spec gives the layout: a 7-byte header
  \<^verbatim>\<open>[type:1B][channelID:1B][sequence:1B][totalLength:4B little-endian]\<close>, the total
  length counting the header, then the payload of \<^verbatim>\<open>totalLength - 7\<close> bytes; a datagram
  holds one or more frames back to back; decoding stops cleanly at the end of the
  buffer and fails with \<^verbatim>\<open>MalformedFrame\<close> when a declared length reaches past
  the bytes available. A declared length below the header's own 7 bytes, and a
  remainder too short to hold a header, are malformed too.\<close>

definition headerSize :: nat where
  "headerSize = 7"

definition putUint32LE :: "nat \<Rightarrow> bytes" where
  "putUint32LE n =
     [of_nat (n mod 256), of_nat (n div 256 mod 256),
      of_nat (n div 65536 mod 256), of_nat (n div 16777216 mod 256)]"

definition uint32LE :: "bytes \<Rightarrow> nat" where
  "uint32LE bs =
     unat (bs ! 0) + 256 * unat (bs ! 1) + 65536 * unat (bs ! 2) + 16777216 * unat (bs ! 3)"

definition defaultEncodeFrame :: "netFrame \<Rightarrow> bytes" where
  "defaultEncodeFrame frame =
     [Type frame, ID frame, Seq frame]
       @ putUint32LE (headerSize + length (Data frame)) @ Data frame"

definition MalformedFrame :: error where
  "MalformedFrame = ''MalformedFrame''"

function defaultDecodeData :: "bytes \<Rightarrow> error + netFrame list" where
  "defaultDecodeData bs =
     (if bs = [] then Inr []
      else if length bs < headerSize then Inl MalformedFrame
      else if uint32LE (take 4 (drop 3 bs)) < headerSize
              \<or> length bs < uint32LE (take 4 (drop 3 bs)) then Inl MalformedFrame
      else (case defaultDecodeData (drop (uint32LE (take 4 (drop 3 bs))) bs) of
              Inl e \<Rightarrow> Inl e
            | Inr frames \<Rightarrow>
                Inr (\<lparr>ID = bs ! 1, Type = bs ! 0, Seq = bs ! 2,
                      Data = take (uint32LE (take 4 (drop 3 bs)) - headerSize)
                               (drop headerSize bs)\<rparr> # frames)))"
  by pat_completeness auto
termination
  by (relation "measure length") (auto simp: headerSize_def)

declare defaultDecodeData.simps [simp del]

section \<open>The connection\<close>

text \<open>
  \<^verbatim>\<open>protocols/arnetworkal/wifi/connection.go\<close>. Everything outside the program (the
  free-port lookup, the resolver, the sockets, the JSON library, the Go scheduler's
  choice among the ready cases of a \<^verbatim>\<open>select\<close>) is an explicit environment whose
  answers the functions take as arguments; what the program does to the outside
  (sockets opened, bytes written, values handed over on a channel) is returned as a
  list of effects in the order in which they happen.
\<close>

definition maxUDPDataBytes :: nat where
  "maxUDPDataBytes = 65507"

definition deviceIP :: string where
  "deviceIP = ''192.168.42.1''"

definition discoveryPort :: int where
  "discoveryPort = 44444"

record connectionNegotiationRequest =
  D2CPort :: int
  ControllerType :: string
  ControllerName :: string

record connectionNegotiationResponse =
  Status :: int
  C2DPort :: int

text \<open>An address is the host and the port that \<^verbatim>\<open>fmt.Sprintf("%s:%d", ...)\<close> joins for
  the resolver; a socket is the handle the environment returns for it.\<close>

type_synonym addr = "string \<times> int"
type_synonym handle = nat

record connection =
  c2dPort :: int
  c2dAddr :: addr
  c2dConn :: handle
  d2cPort :: int
  d2cConn :: handle
  encodeFrame :: "netFrame \<Rightarrow> bytes"
  decodeData :: "bytes \<Rightarrow> error + netFrame list"

record negotiation_env =
  GetFreePort :: "error + int"
  ResolveTCPAddr :: "addr \<Rightarrow> error + addr"
  DialTCP :: "addr \<Rightarrow> error + handle"
  Marshal :: "connectionNegotiationRequest \<Rightarrow> error + bytes"
  negConn_Write :: "bytes \<Rightarrow> error option"
  ReadBytes :: "error + bytes"
  Unmarshal :: "bytes \<Rightarrow> error + connectionNegotiationResponse"
  ResolveUDPAddr :: "addr \<Rightarrow> error + addr"
  DialUDP :: "addr \<Rightarrow> error + handle"
  ListenUDP :: "addr \<Rightarrow> error + handle"

datatype effect =
    TCPDialed addr
  | TCPWritten bytes
  | TCPClosed
  | UDPDialed addr
  | UDPListening addr
  | UDPWritten handle bytes
  | UDPClosed handle
  | ReceivePacketsStarted

datatype failure = Error error | PanicSliceBounds

definition connectionRefused :: error where
  "connectionRefused = ''connection negotiation failed; connection refused by device''"

text \<open>\<^verbatim>\<open>NewConnection\<close> from the line that opens the two UDP sockets (the part after
  the status check).\<close>

definition NewConnection_open ::
  "negotiation_env \<Rightarrow> int \<Rightarrow> connectionNegotiationResponse
     \<Rightarrow> (failure + connection) \<times> effect list" where
  "NewConnection_open w d2cPort' negRes =
     (case ResolveUDPAddr w (deviceIP, C2DPort negRes) of
        Inl err \<Rightarrow>
          (Inl (Error (''error resolving address for outbound connection: '' @ err)), [])
      | Inr c2dAddr' \<Rightarrow>
     (case DialUDP w c2dAddr' of
        Inl err \<Rightarrow> (Inl (Error (''error establishing outbound connection: '' @ err)), [])
      | Inr c2dConn' \<Rightarrow>
     (case ResolveUDPAddr w ([], d2cPort') of
        Inl err \<Rightarrow>
          (Inl (Error (''error resolving address for inbound connection: '' @ err)),
           [UDPDialed c2dAddr'])
      | Inr d2cAddr \<Rightarrow>
     (case ListenUDP w d2cAddr of
        Inl err \<Rightarrow>
          (Inl (Error (''error establishing inbound connection: '' @ err)),
           [UDPDialed c2dAddr'])
      | Inr d2cConn' \<Rightarrow>
          (Inr \<lparr>c2dPort = C2DPort negRes, c2dAddr = c2dAddr', c2dConn = c2dConn',
                d2cPort = d2cPort', d2cConn = d2cConn',
                encodeFrame = defaultEncodeFrame, decodeData = defaultDecodeData\<rparr>,
           [UDPDialed c2dAddr', UDPListening d2cAddr, ReceivePacketsStarted])))))"

text \<open>\<^verbatim>\<open>NewConnection\<close> from the request to the status check, on the dialled TCP
  connection. \<^verbatim>\<open>data[:len(data)-1]\<close> panics on an empty slice.\<close>

definition NewConnection_negotiate ::
  "negotiation_env \<Rightarrow> int \<Rightarrow> (failure + connection) \<times> effect list" where
  "NewConnection_negotiate w d2cPort' =
     (case Marshal w \<lparr>D2CPort = d2cPort', ControllerType = ''computer'',
                       ControllerName = ''go-parrot''\<rparr> of
        Inl err \<Rightarrow>
          (Inl (Error (''error marshaling connection negotiation request: '' @ err)), [])
      | Inr jsonBytes \<Rightarrow>
     (case negConn_Write w (jsonBytes @ [0]) of
        Some err \<Rightarrow>
          (Inl (Error (''error sending connection negotiation request: '' @ err)),
           [TCPWritten (jsonBytes @ [0])])
      | None \<Rightarrow>
     (case ReadBytes w of
        Inl err \<Rightarrow>
          (Inl (Error (''error receiving connection negotiation response: '' @ err)),
           [TCPWritten (jsonBytes @ [0])])
      | Inr data \<Rightarrow>
     (if data = [] then (Inl PanicSliceBounds, [TCPWritten (jsonBytes @ [0])])
      else
     (case Unmarshal w (butlast data) of
        Inl err \<Rightarrow>
          (Inl (Error (''error unmarshaling connection negotiation response: '' @ err)),
           [TCPWritten (jsonBytes @ [0])])
      | Inr negRes \<Rightarrow>
     (if Status negRes \<noteq> 0
      then (Inl (Error connectionRefused), [TCPWritten (jsonBytes @ [0])])
      else (case NewConnection_open w d2cPort' negRes of
              (r, effs) \<Rightarrow> (r, TCPWritten (jsonBytes @ [0]) # effs))))))))"

text \<open>\<^verbatim>\<open>defer negConn.Close()\<close> runs when \<^verbatim>\<open>NewConnection\<close> returns, whatever the
  path, once the TCP connection exists.\<close>

definition NewConnection :: "negotiation_env \<Rightarrow> (failure + connection) \<times> effect list" where
  "NewConnection w =
     (case GetFreePort w of
        Inl err \<Rightarrow> (Inl (Error (''error selecting available client-side port: '' @ err)), [])
      | Inr d2cPort' \<Rightarrow>
     (case ResolveTCPAddr w (deviceIP, discoveryPort) of
        Inl err \<Rightarrow>
          (Inl (Error (''error resolving address for connection negotiation: '' @ err)), [])
      | Inr negAddr \<Rightarrow>
     (case DialTCP w negAddr of
        Inl err \<Rightarrow> (Inl (Error (''error negotiating connection: '' @ err)), [])
      | Inr negConn \<Rightarrow>
          (case NewConnection_negotiate w d2cPort' of
             (r, effs) \<Rightarrow> (r, TCPDialed negAddr # effs @ [TCPClosed])))))"

definition is_UDP_open :: "effect \<Rightarrow> bool" where
  "is_UDP_open e = (case e of UDPDialed a \<Rightarrow> True | UDPListening a \<Rightarrow> True | _ \<Rightarrow> False)"

subsection \<open>Send\<close>


subsection \<open>The receive loop\<close>

text \<open>
  One pass of the \<^verbatim>\<open>for\<close> loop of \<^verbatim>\<open>receivePackets\<close> sees: whether \<^verbatim>\<open>rcvStopCh\<close>
  is closed when the outer \<^verbatim>\<open>select\<close> runs (otherwise its \<^verbatim>\<open>default\<close> branch is
  taken); the answer of \<^verbatim>\<open>SetReadDeadline\<close>; the answer of \<^verbatim>\<open>ReadFromUDP\<close>, an
  error or a datagram, of which the buffer of \<^verbatim>\<open>maxUDPDataBytes\<close> bytes keeps a
  prefix; and, for each \<^verbatim>\<open>select\<close> that offers a value on a channel against
  \<^verbatim>\<open>rcvStopCh\<close>, which of the two cases fires. An error of the socket carries what
  the tests read from it: its dynamic type (a \<^verbatim>\<open>*net.OpError\<close>, another implementation
  of the interface \<^verbatim>\<open>net.Error\<close>, or neither), the answer of its \<^verbatim>\<open>Timeout()\<close>, and
  its message.
\<close>

datatype error_type = OpError | OtherNetError | PlainError

datatype net_error = NetError (dyn_type: error_type) (is_Timeout: bool) (message: error)

text \<open>\<^verbatim>\<open>_, ok := err.(*net.OpError)\<close> and \<^verbatim>\<open>_, ok := err.(net.Error)\<close>\<close>

definition is_OpError :: "net_error \<Rightarrow> bool" where
  "is_OpError err = (dyn_type err = OpError)"

definition is_net_Error :: "net_error \<Rightarrow> bool" where
  "is_net_Error err = (dyn_type err \<noteq> PlainError)"

datatype handoff = Received | Stopped

record rcv_env =
  stop_ready :: bool
  SetReadDeadline :: "error option"
  ReadFromUDP :: "net_error + bytes"
  err_select :: handoff
  frame_select :: "nat \<Rightarrow> handoff"

datatype rcv_event = ErrorDelivered error | FrameDelivered netFrame

datatype loop_ctl = Continue | Return

text \<open>\<^verbatim>\<open>select { case c.rcvErrCh <- err: continue; case <-c.rcvStopCh: return }\<close>\<close>

definition offer_error :: "rcv_env \<Rightarrow> error \<Rightarrow> rcv_event list \<times> loop_ctl" where
  "offer_error e err =
     (case err_select e of
        Received \<Rightarrow> ([ErrorDelivered err], Continue)
      | Stopped \<Rightarrow> ([], Return))"

text \<open>\<^verbatim>\<open>for _, frame := range frames { select { case c.rcvFrameCh <- frame: case
  <-c.rcvStopCh: } }\<close>: a frame whose \<^verbatim>\<open>select\<close> takes the stop case is dropped and
  the range goes on.\<close>

fun offer_frames :: "rcv_env \<Rightarrow> nat \<Rightarrow> netFrame list \<Rightarrow> rcv_event list" where
  "offer_frames e i [] = []"
| "offer_frames e i (frame # frames) =
     (case frame_select e i of
        Received \<Rightarrow> FrameDelivered frame # offer_frames e (Suc i) frames
      | Stopped \<Rightarrow> offer_frames e (Suc i) frames)"

definition receivePackets_pass :: "connection \<Rightarrow> rcv_env \<Rightarrow> rcv_event list \<times> loop_ctl" where
  "receivePackets_pass c e =
     (if stop_ready e then ([], Return)
      else
        (case SetReadDeadline e of
           Some err \<Rightarrow> offer_error e (''error setting read deadline: '' @ err)
         | None \<Rightarrow>
        (case ReadFromUDP e of
           Inl err \<Rightarrow>
             (if \<not> is_OpError err \<or> \<not> is_Timeout err
              then offer_error e
                     (''error receiving data from inbound connection: '' @ message err)
              else ([], Continue))
         | Inr datagram \<Rightarrow>
        (case decodeData c (take maxUDPDataBytes datagram) of
           Inl err \<Rightarrow> offer_error e (''error decoding inbound data: '' @ err)
         | Inr frames \<Rightarrow> (offer_frames e 0 frames, Continue)))))"

text \<open>The loop, from pass \<open>n\<close> of the environment on, with the values handed over so
  far. It may run forever: the result is \<open>None\<close> then, and otherwise the values handed
  over until the goroutine returned (at which point the deferred
  \<^verbatim>\<open>close(c.rcvDoneCh)\<close> runs).\<close>

partial_function (option) receivePackets ::
  "connection \<Rightarrow> (nat \<Rightarrow> rcv_env) \<Rightarrow> nat \<Rightarrow> rcv_event list \<Rightarrow> rcv_event list option" where
  "receivePackets c env n acc =
     (case receivePackets_pass c (env n) of
        (evs, Return) \<Rightarrow> Some (acc @ evs)
      | (evs, Continue) \<Rightarrow> receivePackets c env (Suc n) (acc @ evs))"

text \<open>Whether a pass saw the stop channel closed: at the outer \<^verbatim>\<open>select\<close>, or at the
  \<^verbatim>\<open>select\<close> that offers an error.\<close>

definition stop_signalled :: "rcv_env \<Rightarrow> bool" where
  "stop_signalled e = (stop_ready e \<or> err_select e = Stopped)"

subsection \<open>The frame receiver\<close>

text \<open>
  \<^verbatim>\<open>frameReceiver.Receive\<close> is the other reader of the inbound socket among the
  sources: one read, no loop. It answers a timed-out read with \<^verbatim>\<open>log.Fatal\<close>, which
  ends the process, where the loop of the connection reads again. The buffer
  \<^verbatim>\<open>datagramBuffer\<close> is allocated outside the sources; its length is a field here.
  \<^verbatim>\<open>errors.Wrap(err, msg)\<close> gives the message, a colon and the cause.
\<close>

record frameReceiver =
  conn :: handle
  decodeDatagram :: "bytes \<Rightarrow> error + netFrame list"
  datagramBuffer_len :: nat

datatype 'a go_call = Returns 'a | Fatal string

definition frameReceiver_Receive ::
  "frameReceiver \<Rightarrow> rcv_env \<Rightarrow> (error + netFrame list) go_call" where
  "frameReceiver_Receive f e =
     (case SetReadDeadline e of
        Some err \<Rightarrow> Returns (Inl (''error setting read deadline for datagram: '' @ err))
      | None \<Rightarrow>
     (case ReadFromUDP e of
        Inl err \<Rightarrow>
          (if is_net_Error err \<and> is_Timeout err
           then Fatal ''detected a probable disconnection''
           else Returns (Inl (''error receiving datagram from d2c connection: ''
                               @ message err)))
      | Inr datagram \<Rightarrow>
          Returns (decodeDatagram f (take (datagramBuffer_len f) datagram))))"

subsection \<open>Receive and Close\<close>

text \<open>
  The three channels as a caller of \<^verbatim>\<open>Receive\<close> finds them: \<^verbatim>\<open>rcvFrameCh\<close> and
  \<^verbatim>\<open>rcvErrCh\<close> are unbuffered, so a value can be taken from one only while the receive
  goroutine is blocked offering it; \<^verbatim>\<open>rcvDoneCh\<close> carries no value and is ready once
  closed. When several cases of the \<^verbatim>\<open>select\<close> are ready the runtime picks one; the
  pick is an argument. With no case ready \<^verbatim>\<open>Receive\<close> blocks (\<open>None\<close>).
\<close>

record rcv_chans =
  rcvFrameCh :: "netFrame option"
  rcvErrCh :: "error option"
  rcvDoneCh :: bool

definition Receive_ready ::
  "rcv_chans \<Rightarrow> ((netFrame \<times> bool \<times> error option) \<times> rcv_chans) list" where
  "Receive_ready ch =
     (case rcvFrameCh ch of
        Some frame \<Rightarrow> [((frame, True, None), ch\<lparr>rcvFrameCh := None\<rparr>)]
      | None \<Rightarrow> [])
     @ (case rcvErrCh ch of
          Some err \<Rightarrow> [((zeroFrame, False, Some err), ch\<lparr>rcvErrCh := None\<rparr>)]
        | None \<Rightarrow> [])
     @ (if rcvDoneCh ch then [((zeroFrame, False, None), ch)] else [])"

definition Receive ::
  "rcv_chans \<Rightarrow> nat \<Rightarrow> ((netFrame \<times> bool \<times> error option) \<times> rcv_chans) option" where
  "Receive ch pick =
     (if Receive_ready ch = [] then None
      else Some (Receive_ready ch ! (pick mod length (Receive_ready ch))))"

text \<open>\<^verbatim>\<open>strings.Join\<close>\<close>

fun Join :: "string list \<Rightarrow> string \<Rightarrow> string" where
  "Join [] sep = []"
| "Join [s] sep = s"
| "Join (s # t # ss) sep = s @ sep @ Join (t # ss) sep"

text \<open>
  \<^verbatim>\<open>Close\<close> closes \<^verbatim>\<open>rcvStopCh\<close> and waits on \<^verbatim>\<open>rcvDoneCh\<close>, which only the return
  of \<^verbatim>\<open>receivePackets\<close> closes. The argument \<open>loop\<close> is the run of the receive loop
  from that moment: \<open>None\<close> if it never returns, and then \<^verbatim>\<open>Close\<close> does not return
  either. Once the goroutine has returned it offers nothing on \<^verbatim>\<open>rcvFrameCh\<close> or
  \<^verbatim>\<open>rcvErrCh\<close> any more. The second argument is the \<^verbatim>\<open>Close\<close> of a UDP socket.
\<close>

definition Close ::
  "connection \<Rightarrow> (handle \<Rightarrow> error option) \<Rightarrow> rcv_chans \<Rightarrow> rcv_event list option
     \<Rightarrow> ((error option \<times> effect list) \<times> rcv_chans) option" where
  "Close c conn_Close ch loop =
     (case loop of
        None \<Rightarrow> None
      | Some evs \<Rightarrow>
          (let errStrs =
                 (case conn_Close (c2dConn c) of
                    Some err \<Rightarrow> [''error closing outbound connection: '' @ err @ [CHR 0x0A]]
                  | None \<Rightarrow> [])
                 @ (case conn_Close (d2cConn c) of
                      Some err \<Rightarrow> [''error closing inbound connection: '' @ err @ [CHR 0x0A]]
                    | None \<Rightarrow> [])
           in Some ((if length errStrs > 0
                     then Some (''error(s) closing connection: '' @ Join errStrs ''; '')
                     else None,
                     [UDPClosed (c2dConn c), UDPClosed (d2cConn c)]),
                    ch\<lparr>rcvFrameCh := None, rcvErrCh := None, rcvDoneCh := True\<rparr>)))"

section \<open>The controller-to-device buffer\<close>

text \<open>
  \<^verbatim>\<open>c2dBuffer\<close> and \<^verbatim>\<open>writeFrame\<close>. Modelled from the spec: the declarations of
  \<^verbatim>\<open>C2DBufferConfig\<close>, of \<^verbatim>\<open>arnetwork.Frame\<close> and of \<^verbatim>\<open>buffer\<close> are not among the
  sources; the configuration has the fields the code reads (\<^verbatim>\<open>ID\<close>, \<^verbatim>\<open>FrameType\<close>,
  \<^verbatim>\<open>Size\<close>, \<^verbatim>\<open>IsOverwriting\<close>, \<^verbatim>\<open>MaxRetries\<close>, \<^verbatim>\<open>AckTimeout\<close>), with the types of
  the spec's channel buffer; of \<^verbatim>\<open>arnetwork.Frame\<close> only the field \<^verbatim>\<open>Data\<close> is
  used. The configuration's \<^verbatim>\<open>ID\<close> is \<open>cfg_ID\<close> and the frame's \<^verbatim>\<open>Data\<close> is \<open>FData\<close>
  here, the plain names being fields of \<open>netFrame\<close> already.
\<close>

record C2DBufferConfig =
  cfg_ID :: "8 word"
  FrameType :: FrameType
  Size :: int
  IsOverwriting :: bool
  MaxRetries :: int
  AckTimeout :: int

record Frame =
  FData :: bytes

text \<open>
  The buffer: its configuration, the sequence counter \<^verbatim>\<open>seq\<close>, and the record of
  what it did: the frames passed to \<^verbatim>\<open>c.conn.Send\<close> and the lines passed to
  \<^verbatim>\<open>log.Printf\<close>, oldest first.
\<close>

record c2dBuffer =
  config :: C2DBufferConfig
  seq :: "8 word"
  sent :: "netFrame list"
  logged :: "string list"

text \<open>
  What the buffer meets: the answer of the \<open>n\<close>-th call of \<^verbatim>\<open>c.conn.Send\<close>, and the
  outcome of the \<^verbatim>\<open>select\<close> after the \<open>n\<close>-th send, which either takes a frame from
  \<^verbatim>\<open>c.ackCh\<close> before the timer of \<^verbatim>\<open>c.AckTimeout\<close> fires, or the timer.
\<close>

datatype ack_event = AckReceived Frame | TimedOut

record c2d_env =
  conn_Send :: "nat \<Rightarrow> netFrame \<Rightarrow> error option"
  ackCh_select :: "nat \<Rightarrow> ack_event"

text \<open>\<^verbatim>\<open>[]byte(fmt.Sprintf("%d", n))\<close> for an unsigned \<open>n\<close>: the decimal digits in
  ASCII.\<close>

function Sprintf_d :: "nat \<Rightarrow> bytes" where
  "Sprintf_d n =
     (if n < 10 then [of_nat (48 + n)]
      else Sprintf_d (n div 10) @ [of_nat (48 + n mod 10)])"
  by pat_completeness auto
termination
  by (relation "measure id") auto

declare Sprintf_d.simps [simp del]

text \<open>The body of the \<^verbatim>\<open>for\<close> loop of \<^verbatim>\<open>writeFrame\<close>; the flag says whether the body
  left through \<^verbatim>\<open>return\<close>.\<close>

definition writeFrame_attempt :: "c2d_env \<Rightarrow> Frame \<Rightarrow> c2dBuffer \<Rightarrow> bool \<times> c2dBuffer" where
  "writeFrame_attempt env frame c =
     (let netFrame = \<lparr>ID = cfg_ID (config c), Type = FrameType (config c), Seq = seq c,
                       Data = FData frame\<rparr>;
          n = length (sent c);
          c1 = c\<lparr>seq := seq c + 1\<rparr>;
          c2 = (case conn_Send env n netFrame of
                  Some err \<Rightarrow>
                    c1\<lparr>sent := sent c1 @ [netFrame],
                       logged := logged c1 @ [''error sending frame: '' @ err @ [CHR 0x0A]]\<rparr>
                | None \<Rightarrow> c1\<lparr>sent := sent c1 @ [netFrame]\<rparr>)
      in if Type netFrame = FrameTypeDataWithAck
         then (case ackCh_select env n of
                 AckReceived ack \<Rightarrow>
                   (if Sprintf_d (unat (Seq netFrame)) = FData ack then (True, c2)
                    else (False, c2))
               | TimedOut \<Rightarrow> (False, c2))
         else (False, c2))"

text \<open>\<^verbatim>\<open>attempts++\<close> on Go's \<^verbatim>\<open>int\<close>, 64 bits wide: the largest value wraps to the
  smallest.\<close>

definition int_incr :: "int \<Rightarrow> int" where
  "int_incr a = (if a = 2 ^ 63 - 1 then - (2 ^ 63) else a + 1)"

datatype writeFrame_exit = ReturnedOnAck | LoopEnded

partial_function (option) writeFrame_loop ::
  "c2d_env \<Rightarrow> Frame \<Rightarrow> int \<Rightarrow> c2dBuffer \<Rightarrow> (writeFrame_exit \<times> c2dBuffer) option" where
  "writeFrame_loop env frame attempts c =
     (if attempts \<le> MaxRetries (config c) \<or> MaxRetries (config c) = - 1
      then (case writeFrame_attempt env frame c of
              (returned, c') \<Rightarrow>
                if returned then Some (ReturnedOnAck, c')
                else writeFrame_loop env frame (int_incr attempts) c')
      else Some (LoopEnded, c))"

definition writeFrame ::
  "c2d_env \<Rightarrow> Frame \<Rightarrow> c2dBuffer \<Rightarrow> (writeFrame_exit \<times> c2dBuffer) option" where
  "writeFrame env frame c = writeFrame_loop env frame 0 c"

text \<open>\<^verbatim>\<open>for frame := range c.outCh { c.writeFrame(frame) }\<close>, on the frames that come
  out of \<^verbatim>\<open>outCh\<close> until it is closed.\<close>

fun writeFrames :: "c2d_env \<Rightarrow> Frame list \<Rightarrow> c2dBuffer \<Rightarrow> c2dBuffer option" where
  "writeFrames env [] c = Some c"
| "writeFrames env (frame # frames) c =
     (case writeFrame env frame c of
        None \<Rightarrow> None
      | Some (x, c') \<Rightarrow> writeFrames env frames c')"

section \<open>Sample environments\<close>

text \<open>A device that answers the negotiation with the given status: every call outside
  the program succeeds, the response read from the TCP connection is one byte and the
  terminating zero, and it unmarshals to the status and the port 54321.\<close>

definition device_env :: "int \<Rightarrow> negotiation_env" where
  "device_env status =
     \<lparr>GetFreePort = Inr 50000,
      ResolveTCPAddr = Inr,
      DialTCP = (\<lambda>a. Inr 3),
      Marshal = (\<lambda>r. Inr [123, 125]),
      negConn_Write = (\<lambda>bs. None),
      ReadBytes = Inr [123, 125, 0],
      Unmarshal = (\<lambda>bs. Inr \<lparr>Status = status, C2DPort = 54321\<rparr>),
      ResolveUDPAddr = Inr,
      DialUDP = (\<lambda>a. Inr 4),
      ListenUDP = (\<lambda>a. Inr 5)\<rparr>"

text \<open>A connection as \<open>NewConnection\<close> builds it, a frame whose encoding is one byte
  longer than \<open>maxUDPDataBytes\<close>, a socket whose \<^verbatim>\<open>Write\<close> accepts whatever it is
  given, and one that refuses a datagram above the limit as the operating system
  does.\<close>

definition sample_connection :: connection where
  "sample_connection =
     \<lparr>c2dPort = 54321, c2dAddr = (deviceIP, 54321), c2dConn = 4, d2cPort = 50000,
      d2cConn = 5, encodeFrame = defaultEncodeFrame, decodeData = defaultDecodeData\<rparr>"




text \<open>Sockets that close without an error, and the channels while the receive loop is
  blocked offering an error.\<close>

definition closing_socket :: "handle \<Rightarrow> error option" where
  "closing_socket h = None"

definition error_pending :: rcv_chans where
  "error_pending =
     \<lparr>rcvFrameCh = None,
      rcvErrCh = Some ''error decoding inbound data: MalformedFrame'',
      rcvDoneCh = False\<rparr>"

text \<open>A frame of three payload bytes on channel 10.\<close>

definition sample_frame :: netFrame where
  "sample_frame = \<lparr>ID = 10, Type = FrameTypeDataWithAck, Seq = 5, Data = [1, 2, 3]\<rparr>"

text \<open>Passes of the receive loop: a read that times out, a read that fails otherwise,
  a datagram too short to hold a frame header, a deadline that cannot be set, and a
  pass that finds \<^verbatim>\<open>rcvStopCh\<close> closed. In all of them a caller of \<^verbatim>\<open>Receive\<close> takes
  what the loop offers. Then a run of four passes that ends with the stop, and a
  run on which every read times out and nobody ever stops the loop.\<close>

definition timeout_pass :: rcv_env where
  "timeout_pass =
     \<lparr>stop_ready = False, SetReadDeadline = None,
      ReadFromUDP = Inl (NetError OpError True ''i/o timeout''),
      err_select = Received, frame_select = (\<lambda>i. Received)\<rparr>"

definition refused_pass :: rcv_env where
  "refused_pass =
     \<lparr>stop_ready = False, SetReadDeadline = None,
      ReadFromUDP = Inl (NetError OpError False ''connection refused''),
      err_select = Received, frame_select = (\<lambda>i. Received)\<rparr>"

definition garbage_pass :: rcv_env where
  "garbage_pass =
     \<lparr>stop_ready = False, SetReadDeadline = None,
      ReadFromUDP = Inr [1, 2, 3],
      err_select = Received, frame_select = (\<lambda>i. Received)\<rparr>"

definition deadline_pass :: rcv_env where
  "deadline_pass =
     \<lparr>stop_ready = False, SetReadDeadline = Some ''closed'',
      ReadFromUDP = Inr [],
      err_select = Received, frame_select = (\<lambda>i. Received)\<rparr>"

definition stop_pass :: rcv_env where
  "stop_pass =
     \<lparr>stop_ready = True, SetReadDeadline = None,
      ReadFromUDP = Inr [],
      err_select = Stopped, frame_select = (\<lambda>i. Stopped)\<rparr>"

definition stopped_run :: "nat \<Rightarrow> rcv_env" where
  "stopped_run k =
     (if k = 0 then timeout_pass else if k = 1 then refused_pass
      else if k = 2 then garbage_pass else stop_pass)"

definition idle_run :: "nat \<Rightarrow> rcv_env" where
  "idle_run k = timeout_pass"

text \<open>Sequence numbers that count up from \<open>s\<close> by one, modulo 256.\<close>

definition consecutive_from :: "8 word \<Rightarrow> netFrame list \<Rightarrow> bool" where
  "consecutive_from s frames =
     (map (\<lambda>f. unat (Seq f)) frames = map (\<lambda>i. (unat s + i) mod 256) [0..<length frames])"

text \<open>The frame that the attempt made in state \<open>c\<close> hands to the connection.\<close>

definition netFrame_of :: "c2dBuffer \<Rightarrow> Frame \<Rightarrow> netFrame" where
  "netFrame_of c frame =
     \<lparr>ID = cfg_ID (config c), Type = FrameType (config c), Seq = seq c, Data = FData frame\<rparr>"


text \<open>A buffer on channel 11 with the given frame type, retry bound and sequence
  counter, which has not sent or logged anything yet; a queued item of three bytes; a
  connection on which every send succeeds and no acknowledgment ever arrives; and one
  on which the acknowledgment of sequence number 7 arrives after the first send.\<close>

definition sample_buffer :: "FrameType \<Rightarrow> int \<Rightarrow> 8 word \<Rightarrow> c2dBuffer" where
  "sample_buffer t r s =
     \<lparr>config = \<lparr>cfg_ID = 11, FrameType = t, Size = 10, IsOverwriting = False,
                 MaxRetries = r, AckTimeout = 500000000\<rparr>,
      seq = s, sent = [], logged = []\<rparr>"

definition sample_item :: Frame where
  "sample_item = \<lparr>FData = [1, 2, 3]\<rparr>"

definition silent_env :: c2d_env where
  "silent_env = \<lparr>conn_Send = (\<lambda>n f. None), ackCh_select = (\<lambda>n. TimedOut)\<rparr>"

definition acking_env :: c2d_env where
  "acking_env =
     \<lparr>conn_Send = (\<lambda>n f. None), ackCh_select = (\<lambda>n. AckReceived \<lparr>FData = [55]\<rparr>)\<rparr>"

chapter \<open>Properties\<close>

section \<open>Feature state\<close>







section \<open>Session establishment\<close>

lemma negotiate_UDP_zero_status:
  assumes "\<exists>e \<in> set (snd (NewConnection_negotiate w p)). is_UDP_open e"
  shows "\<exists>js data negRes.
           Marshal w \<lparr>D2CPort = p, ControllerType = ''computer'',
                      ControllerName = ''go-parrot''\<rparr> = Inr js \<and>
           negConn_Write w (js @ [0]) = None \<and> ReadBytes w = Inr data \<and> data \<noteq> [] \<and>
           Unmarshal w (butlast data) = Inr negRes \<and> Status negRes = 0"
  using assms
  by (auto simp: NewConnection_negotiate_def is_UDP_open_def
      split: sum.splits option.splits if_splits prod.splits)

text \<open>
  C6. When the negotiation gets as far as a response and the response carries a status
  other than zero, \<open>NewConnection\<close> fails with the error ``connection negotiation
  failed; connection refused by device'', and all it has done is dial the TCP
  connection, write the request and close the TCP connection: no UDP socket is dialled
  and none listens. Conversely, on whatever environment, a UDP socket is opened only if
  the negotiation has read a response whose status is zero.
\<close>

theorem nonzero_status_refused_no_UDP:
  "(GetFreePort w = Inr p \<and> ResolveTCPAddr w (deviceIP, discoveryPort) = Inr a \<and>
    DialTCP w a = Inr h \<and>
    Marshal w \<lparr>D2CPort = p, ControllerType = ''computer'',
               ControllerName = ''go-parrot''\<rparr> = Inr js \<and>
    negConn_Write w (js @ [0]) = None \<and> ReadBytes w = Inr data \<and> data \<noteq> [] \<and>
    Unmarshal w (butlast data) = Inr negRes \<and> Status negRes \<noteq> 0
    \<longrightarrow> NewConnection w
          = (Inl (Error connectionRefused), [TCPDialed a, TCPWritten (js @ [0]), TCPClosed]))
   \<and> ((\<exists>e \<in> set (snd (NewConnection w)). is_UDP_open e)
    \<longrightarrow> (\<exists>p js data negRes.
           GetFreePort w = Inr p \<and>
           Marshal w \<lparr>D2CPort = p, ControllerType = ''computer'',
                      ControllerName = ''go-parrot''\<rparr> = Inr js \<and>
           negConn_Write w (js @ [0]) = None \<and> ReadBytes w = Inr data \<and> data \<noteq> [] \<and>
           Unmarshal w (butlast data) = Inr negRes \<and> Status negRes = 0))"
proof (intro conjI impI)
  assume "GetFreePort w = Inr p \<and> ResolveTCPAddr w (deviceIP, discoveryPort) = Inr a \<and>
    DialTCP w a = Inr h \<and>
    Marshal w \<lparr>D2CPort = p, ControllerType = ''computer'',
               ControllerName = ''go-parrot''\<rparr> = Inr js \<and>
    negConn_Write w (js @ [0]) = None \<and> ReadBytes w = Inr data \<and> data \<noteq> [] \<and>
    Unmarshal w (butlast data) = Inr negRes \<and> Status negRes \<noteq> 0"
  then show "NewConnection w
          = (Inl (Error connectionRefused), [TCPDialed a, TCPWritten (js @ [0]), TCPClosed])"
    by (simp add: NewConnection_def NewConnection_negotiate_def)
next
  assume u: "\<exists>e \<in> set (snd (NewConnection w)). is_UDP_open e"
  then obtain p where p: "GetFreePort w = Inr p"
    and n: "\<exists>e \<in> set (snd (NewConnection_negotiate w p)). is_UDP_open e"
    by (auto simp: NewConnection_def is_UDP_open_def split: sum.splits prod.splits)
  from negotiate_UDP_zero_status [OF n] p
  show "\<exists>p js data negRes.
           GetFreePort w = Inr p \<and>
           Marshal w \<lparr>D2CPort = p, ControllerType = ''computer'',
                      ControllerName = ''go-parrot''\<rparr> = Inr js \<and>
           negConn_Write w (js @ [0]) = None \<and> ReadBytes w = Inr data \<and> data \<noteq> [] \<and>
           Unmarshal w (butlast data) = Inr negRes \<and> Status negRes = 0"
    by blast
qed

theorem nonzero_status_refused_no_UDP_witness:
  "(GetFreePort (device_env 1) = Inr 50000 \<and>
    ResolveTCPAddr (device_env 1) (deviceIP, discoveryPort) = Inr (deviceIP, discoveryPort) \<and>
    DialTCP (device_env 1) (deviceIP, discoveryPort) = Inr 3 \<and>
    Marshal (device_env 1) \<lparr>D2CPort = 50000, ControllerType = ''computer'',
               ControllerName = ''go-parrot''\<rparr> = Inr [123, 125] \<and>
    negConn_Write (device_env 1) ([123, 125] @ [0]) = None \<and>
    ReadBytes (device_env 1) = Inr [123, 125, 0] \<and>
    Unmarshal (device_env 1) (butlast [123, 125, 0]) = Inr \<lparr>Status = 1, C2DPort = 54321\<rparr> \<and>
    Status \<lparr>Status = 1, C2DPort = 54321\<rparr> \<noteq> 0) \<and>
   NewConnection (device_env 1)
     = (Inl (Error connectionRefused),
        [TCPDialed (deviceIP, discoveryPort), TCPWritten [123, 125, 0], TCPClosed]) \<and>
   (\<exists>e \<in> set (snd (NewConnection (device_env 0))). is_UDP_open e) \<and>
   (\<exists>p js data negRes.
       GetFreePort (device_env 0) = Inr p \<and>
       Marshal (device_env 0) \<lparr>D2CPort = p, ControllerType = ''computer'',
                  ControllerName = ''go-parrot''\<rparr> = Inr js \<and>
       negConn_Write (device_env 0) (js @ [0]) = None \<and>
       ReadBytes (device_env 0) = Inr data \<and> data \<noteq> [] \<and>
       Unmarshal (device_env 0) (butlast data) = Inr negRes \<and> Status negRes = 0)"
proof -
  have hyp: "GetFreePort (device_env 1) = Inr 50000 \<and>
    ResolveTCPAddr (device_env 1) (deviceIP, discoveryPort) = Inr (deviceIP, discoveryPort) \<and>
    DialTCP (device_env 1) (deviceIP, discoveryPort) = Inr 3 \<and>
    Marshal (device_env 1) \<lparr>D2CPort = 50000, ControllerType = ''computer'',
               ControllerName = ''go-parrot''\<rparr> = Inr [123, 125] \<and>
    negConn_Write (device_env 1) ([123, 125] @ [0]) = None \<and>
    ReadBytes (device_env 1) = Inr [123, 125, 0] \<and> [123, 125, 0 :: 8 word] \<noteq> [] \<and>
    Unmarshal (device_env 1) (butlast [123, 125, 0]) = Inr \<lparr>Status = 1, C2DPort = 54321\<rparr> \<and>
    Status \<lparr>Status = 1, C2DPort = 54321\<rparr> \<noteq> 0"
    by (simp add: device_env_def)
  have opened: "\<exists>e \<in> set (snd (NewConnection (device_env 0))). is_UDP_open e"
    by (simp add: device_env_def NewConnection_def NewConnection_negotiate_def
        NewConnection_open_def is_UDP_open_def)
  from hyp opened
    nonzero_status_refused_no_UDP [of "device_env 1" 50000 "(deviceIP, discoveryPort)" 3
      "[123, 125]" "[123, 125, 0]" "\<lparr>Status = 1, C2DPort = 54321\<rparr>"]
    nonzero_status_refused_no_UDP [of "device_env 0"]
  show ?thesis by simp
qed

section \<open>Send\<close>




section \<open>Receive after Close\<close>

lemma Receive_after_return:
  "rcvFrameCh ch = None \<Longrightarrow> rcvErrCh ch = None \<Longrightarrow> rcvDoneCh ch \<Longrightarrow>
   Receive ch pick = Some ((zeroFrame, False, None), ch)"
  by (simp add: Receive_def Receive_ready_def)

lemma Receive_ready_cases:
  "x \<in> set (Receive_ready ch) \<Longrightarrow>
     (\<exists>frame. rcvFrameCh ch = Some frame
        \<and> x = ((frame, True, None), ch\<lparr>rcvFrameCh := None\<rparr>)) \<or>
     (\<exists>err. rcvErrCh ch = Some err
        \<and> x = ((zeroFrame, False, Some err), ch\<lparr>rcvErrCh := None\<rparr>)) \<or>
     (rcvDoneCh ch \<and> x = ((zeroFrame, False, None), ch))"
  by (auto simp: Receive_ready_def split: option.splits if_splits)

lemma Receive_in_ready:
  "Receive ch pick = Some x \<Longrightarrow> x \<in> set (Receive_ready ch)"
  by (auto simp: Receive_def split: if_splits)

text \<open>
  C10. Once \<open>Close\<close> has returned, which it does only after the receive loop has
  returned, \<open>Receive\<close> returns the zero frame, \<open>False\<close> and no error, whichever case the
  runtime picks, and leaves the channels as they are, so that every later call does the
  same. A result of \<open>Receive\<close> with an error is the zero frame, \<open>False\<close> and the error
  the receive loop offered on \<^verbatim>\<open>rcvErrCh\<close>; a result with \<open>False\<close> and no error comes
  from the closed \<^verbatim>\<open>rcvDoneCh\<close> only; and while the loop offers an error and nothing
  else is ready, \<open>Receive\<close> returns that error.
\<close>

theorem Receive_shutdown_vs_failure:
  "(Close c conn_Close ch loop = Some (r, ch')
      \<longrightarrow> Receive ch' pick = Some ((zeroFrame, False, None), ch')) \<and>
   (Receive ch pick = Some ((frame, ok, e), ch2) \<and> e \<noteq> None
      \<longrightarrow> frame = zeroFrame \<and> \<not> ok \<and> e = rcvErrCh ch) \<and>
   (Receive ch pick = Some ((frame, ok, None), ch2) \<and> \<not> ok
      \<longrightarrow> frame = zeroFrame \<and> rcvDoneCh ch \<and> ch2 = ch) \<and>
   (rcvFrameCh ch = None \<and> rcvErrCh ch = Some err \<and> \<not> rcvDoneCh ch
      \<longrightarrow> Receive ch pick = Some ((zeroFrame, False, Some err), ch\<lparr>rcvErrCh := None\<rparr>))"
proof (intro conjI impI)
  assume "Close c conn_Close ch loop = Some (r, ch')"
  then have "rcvFrameCh ch' = None \<and> rcvErrCh ch' = None \<and> rcvDoneCh ch'"
    by (auto simp: Close_def Let_def split: option.splits)
  then show "Receive ch' pick = Some ((zeroFrame, False, None), ch')"
    by (simp add: Receive_after_return)
next
  assume a: "Receive ch pick = Some ((frame, ok, e), ch2) \<and> e \<noteq> None"
  then have "((frame, ok, e), ch2) \<in> set (Receive_ready ch)"
    by (blast intro: Receive_in_ready)
  from Receive_ready_cases [OF this] a
  show "frame = zeroFrame" "\<not> ok" "e = rcvErrCh ch" by auto
next
  assume a: "Receive ch pick = Some ((frame, ok, None), ch2) \<and> \<not> ok"
  then have "((frame, ok, None), ch2) \<in> set (Receive_ready ch)"
    by (blast intro: Receive_in_ready)
  from Receive_ready_cases [OF this] a
  show "frame = zeroFrame" "rcvDoneCh ch" "ch2 = ch" by auto
next
  assume "rcvFrameCh ch = None \<and> rcvErrCh ch = Some err \<and> \<not> rcvDoneCh ch"
  then show "Receive ch pick = Some ((zeroFrame, False, Some err), ch\<lparr>rcvErrCh := None\<rparr>)"
    by (simp add: Receive_def Receive_ready_def)
qed

theorem Receive_shutdown_vs_failure_witness:
  "Close sample_connection closing_socket error_pending (Some [])
     = Some ((None, [UDPClosed 4, UDPClosed 5]),
             \<lparr>rcvFrameCh = None, rcvErrCh = None, rcvDoneCh = True\<rparr>) \<and>
   Receive \<lparr>rcvFrameCh = None, rcvErrCh = None, rcvDoneCh = True\<rparr> 7
     = Some ((zeroFrame, False, None),
             \<lparr>rcvFrameCh = None, rcvErrCh = None, rcvDoneCh = True\<rparr>) \<and>
   (rcvFrameCh error_pending = None
      \<and> rcvErrCh error_pending = Some ''error decoding inbound data: MalformedFrame''
      \<and> \<not> rcvDoneCh error_pending) \<and>
   Receive error_pending 7
     = Some ((zeroFrame, False, Some ''error decoding inbound data: MalformedFrame''),
             error_pending\<lparr>rcvErrCh := None\<rparr>)"
proof -
  have cl: "Close sample_connection closing_socket error_pending (Some [])
     = Some ((None, [UDPClosed 4, UDPClosed 5]),
             \<lparr>rcvFrameCh = None, rcvErrCh = None, rcvDoneCh = True\<rparr>)"
    by (simp add: Close_def sample_connection_def closing_socket_def error_pending_def)
  have pend: "rcvFrameCh error_pending = None
      \<and> rcvErrCh error_pending = Some ''error decoding inbound data: MalformedFrame''
      \<and> \<not> rcvDoneCh error_pending"
    by (simp add: error_pending_def)
  have a: "Receive \<lparr>rcvFrameCh = None, rcvErrCh = None, rcvDoneCh = True\<rparr> 7
     = Some ((zeroFrame, False, None),
             \<lparr>rcvFrameCh = None, rcvErrCh = None, rcvDoneCh = True\<rparr>)"
    by (rule Receive_shutdown_vs_failure [THEN conjunct1, THEN mp, OF cl])
  have b: "Receive error_pending 7
     = Some ((zeroFrame, False, Some ''error decoding inbound data: MalformedFrame''),
             error_pending\<lparr>rcvErrCh := None\<rparr>)"
    by (rule Receive_shutdown_vs_failure
        [THEN conjunct2, THEN conjunct2, THEN conjunct2, THEN mp, OF pend])
  from cl a pend b show ?thesis
    by blast
qed

section \<open>The frame codec\<close>

lemma defaultDecodeData_Nil: "defaultDecodeData [] = Inr []"
  by (subst defaultDecodeData.simps) simp

lemma length_putUint32LE: "length (putUint32LE n) = 4"
  by (simp add: putUint32LE_def)

lemma le_digits:
  fixes n :: nat
  shows "n mod 256 + 256 * (n div 256 mod 256) + 65536 * (n div 65536 mod 256)
     + 16777216 * (n div 16777216) = n"
proof -
  define a where "a = n div 256"
  define b where "b = a div 256"
  define c where "c = b div 256"
  have d2: "n div 65536 = b"
    unfolding a_def b_def by (simp add: div_mult2_eq [symmetric])
  have d3: "n div 16777216 = c"
    unfolding a_def b_def c_def by (simp add: div_mult2_eq [symmetric])
  have n: "n = 256 * a + n mod 256" unfolding a_def by simp
  have a: "a = 256 * b + a mod 256" unfolding b_def by simp
  have b: "b = 256 * c + b mod 256" unfolding c_def by simp
  have "n mod 256 + 256 * (a mod 256) + 65536 * (b mod 256) + 16777216 * c = n"
    using n a b by linarith
  then show ?thesis by (simp only: d2 d3 a_def [symmetric])
qed

lemma uint32LE_putUint32LE:
  assumes "n < 2 ^ 32"
  shows "uint32LE (putUint32LE n) = n"
proof -
  have b: "n div 16777216 < 256" using assms by simp
  have "uint32LE (putUint32LE n)
      = n mod 256 + 256 * (n div 256 mod 256) + 65536 * (n div 65536 mod 256)
          + 16777216 * (n div 16777216 mod 256)"
    by (simp add: uint32LE_def putUint32LE_def unat_of_nat)
  also have "\<dots> = n" using b le_digits [of n] by simp
  finally show ?thesis .
qed

text \<open>
  C7. A frame is valid when its total length, header and payload, fits the 32-bit
  length field. For every valid frame the encoding is the type byte, the channel
  identifier, the sequence number and the total length in four little-endian bytes,
  seven bytes in all, followed by the payload; and decoding the encoding gives the
  one-element list of that frame.
\<close>

theorem decode_encode_roundtrip:
  assumes "headerSize + length (Data frame) < 2 ^ 32"
  shows "defaultDecodeData (defaultEncodeFrame frame) = Inr [frame] \<and>
         take 3 (defaultEncodeFrame frame) = [Type frame, ID frame, Seq frame] \<and>
         uint32LE (take 4 (drop 3 (defaultEncodeFrame frame))) = 7 + length (Data frame) \<and>
         drop 7 (defaultEncodeFrame frame) = Data frame \<and>
         length (defaultEncodeFrame frame) = 7 + length (Data frame)"
proof -
  let ?n = "headerSize + length (Data frame)"
  let ?bs = "defaultEncodeFrame frame"
  have len: "length ?bs = ?n"
    by (simp add: defaultEncodeFrame_def length_putUint32LE headerSize_def)
  have hdr: "take 4 (drop 3 ?bs) = putUint32LE ?n"
    by (simp add: defaultEncodeFrame_def length_putUint32LE)
  have tot: "uint32LE (take 4 (drop 3 ?bs)) = ?n"
    using assms by (simp only: hdr uint32LE_putUint32LE)
  have pay: "take (?n - headerSize) (drop headerSize ?bs) = Data frame"
    by (simp add: defaultEncodeFrame_def length_putUint32LE headerSize_def)
  have fld: "?bs ! 0 = Type frame" "?bs ! 1 = ID frame" "?bs ! 2 = Seq frame"
    by (simp_all add: defaultEncodeFrame_def)
  have ne: "?bs \<noteq> []" by (simp add: defaultEncodeFrame_def)
  have rest: "drop ?n ?bs = []" using len by simp
  have dec: "defaultDecodeData ?bs = Inr [frame]"
    apply (subst defaultDecodeData.simps)
    apply (simp only: tot pay fld ne rest len defaultDecodeData_Nil)
    apply (simp add: headerSize_def)
    done
  have t3: "take 3 ?bs = [Type frame, ID frame, Seq frame]"
    by (simp add: defaultEncodeFrame_def)
  have d7: "drop 7 ?bs = Data frame"
    by (simp add: defaultEncodeFrame_def length_putUint32LE)
  from dec t3 tot d7 len show ?thesis
    by (simp add: headerSize_def)
qed

theorem decode_encode_roundtrip_witness:
  "headerSize + length (Data sample_frame) < 2 ^ 32 \<and>
   defaultEncodeFrame sample_frame = [3, 10, 5, 10, 0, 0, 0, 1, 2, 3] \<and>
   defaultDecodeData [3, 10, 5, 10, 0, 0, 0, 1, 2, 3] = Inr [sample_frame]"
proof -
  have h: "headerSize + length (Data sample_frame) < 2 ^ 32"
    by (simp add: headerSize_def sample_frame_def)
  have e: "defaultEncodeFrame sample_frame = [3, 10, 5, 10, 0, 0, 0, 1, 2, 3]"
    by (simp add: defaultEncodeFrame_def sample_frame_def putUint32LE_def headerSize_def
        FrameTypeDataWithAck_def)
  from decode_encode_roundtrip [OF h] have
    "defaultDecodeData (defaultEncodeFrame sample_frame) = Inr [sample_frame]"
    by (rule conjunct1)
  with h e show ?thesis by (simp only:)
qed

section \<open>The receive loop\<close>

lemma offer_error_Return: "offer_error e err = (evs, Return) \<Longrightarrow> err_select e = Stopped"
  by (auto simp: offer_error_def split: handoff.splits)

lemma pass_Return_stop:
  "receivePackets_pass c e = (evs, Return) \<Longrightarrow> stop_signalled e"
  by (auto simp: receivePackets_pass_def stop_signalled_def
      split: if_splits option.splits sum.splits dest: offer_error_Return)

lemma receivePackets_exit_stop:
  assumes a: "receivePackets c env n acc = Some evs"
  shows "\<exists>k\<ge>n. stop_signalled (env k)"
proof (rule receivePackets.raw_induct
    [where P = "\<lambda>c env n acc evs. \<exists>k\<ge>n. stop_signalled (env k)", OF _ a])
  fix rp :: "connection \<Rightarrow> (nat \<Rightarrow> rcv_env) \<Rightarrow> nat \<Rightarrow> rcv_event list \<Rightarrow> rcv_event list option"
  fix c env n acc ca
  assume IH: "\<And>c env n acc y. rp c env n acc = Some y \<Longrightarrow> \<exists>k\<ge>n. stop_signalled (env k)"
  assume step: "(case receivePackets_pass c (env n) of
      (evs, Continue) \<Rightarrow> rp c env (Suc n) (acc @ evs)
      | (evs, Return) \<Rightarrow> Some (acc @ evs)) = Some ca"
  obtain evs ctl where p: "receivePackets_pass c (env n) = (evs, ctl)"
    by (cases "receivePackets_pass c (env n)")
  show "\<exists>k\<ge>n. stop_signalled (env k)"
  proof (cases ctl)
    case Return
    with p have "stop_signalled (env n)" by (simp add: pass_Return_stop)
    then show ?thesis by blast
  next
    case Continue
    with p step have "rp c env (Suc n) (acc @ evs) = Some ca" by simp
    from IH [OF this] obtain k where k: "Suc n \<le> k" "stop_signalled (env k)" by blast
    from k(1) have "n \<le> k" by simp
    with k(2) show ?thesis by blast
  qed
qed

lemma receivePackets_exits_on_stop:
  "n \<le> k \<Longrightarrow> stop_ready (env k) \<Longrightarrow> \<exists>evs. receivePackets c env n acc = Some evs"
proof (induction "k - n" arbitrary: n acc)
  case 0
  then have "n = k" by simp
  with 0 have "receivePackets_pass c (env n) = ([], Return)"
    by (simp add: receivePackets_pass_def)
  then show ?case by (subst receivePackets.simps) simp
next
  case (Suc d)
  obtain evs ctl where p: "receivePackets_pass c (env n) = (evs, ctl)"
    by (cases "receivePackets_pass c (env n)")
  show ?case
  proof (cases ctl)
    case Return
    with p show ?thesis by (subst receivePackets.simps) simp
  next
    case Continue
    from Suc have "d = k - Suc n" "Suc n \<le> k" by simp_all
    from Suc.hyps(1) [OF this(1) this(2) Suc.prems(2)]
    obtain evs' where "receivePackets c env (Suc n) (acc @ evs) = Some evs'" by blast
    with p Continue show ?thesis by (subst receivePackets.simps) simp
  qed
qed

text \<open>
  C5. In a pass of the receive loop that does not find \<^verbatim>\<open>rcvStopCh\<close> closed: a read
  that times out hands nothing over and the loop goes on to the next pass; any other
  error of the read, an error of decoding and an error of setting the deadline are
  handed over on the error channel, once a caller of \<^verbatim>\<open>Receive\<close> takes them, and the
  loop goes on. If the loop returns then some pass has seen the stop channel closed;
  if no pass ever sees it closed the loop never returns, whatever errors occur; and
  if a pass finds it closed at the outer \<^verbatim>\<open>select\<close> the loop does return.
\<close>

theorem receive_loop_exits_only_on_stop:
  "(\<not> stop_ready e \<and> SetReadDeadline e = None \<and> ReadFromUDP e = Inl err
      \<and> is_OpError err \<and> is_Timeout err
      \<longrightarrow> receivePackets_pass c e = ([], Continue)) \<and>
   (\<not> stop_ready e \<and> SetReadDeadline e = None \<and> ReadFromUDP e = Inl err
      \<and> \<not> (is_OpError err \<and> is_Timeout err) \<and> err_select e = Received
      \<longrightarrow> receivePackets_pass c e
           = ([ErrorDelivered (''error receiving data from inbound connection: ''
                                 @ message err)], Continue)) \<and>
   (\<not> stop_ready e \<and> SetReadDeadline e = None \<and> ReadFromUDP e = Inr datagram
      \<and> decodeData c (take maxUDPDataBytes datagram) = Inl derr \<and> err_select e = Received
      \<longrightarrow> receivePackets_pass c e
           = ([ErrorDelivered (''error decoding inbound data: '' @ derr)], Continue)) \<and>
   (\<not> stop_ready e \<and> SetReadDeadline e = Some serr \<and> err_select e = Received
      \<longrightarrow> receivePackets_pass c e
           = ([ErrorDelivered (''error setting read deadline: '' @ serr)], Continue)) \<and>
   (receivePackets c env n acc = Some evs \<longrightarrow> (\<exists>k\<ge>n. stop_signalled (env k))) \<and>
   ((\<forall>k. \<not> stop_signalled (env k)) \<longrightarrow> receivePackets c env n acc = None) \<and>
   (n \<le> k \<and> stop_ready (env k) \<longrightarrow> receivePackets c env n acc \<noteq> None)"
proof (intro conjI impI)
  assume "\<not> stop_ready e \<and> SetReadDeadline e = None \<and> ReadFromUDP e = Inl err
      \<and> is_OpError err \<and> is_Timeout err"
  then show "receivePackets_pass c e = ([], Continue)"
    by (simp add: receivePackets_pass_def)
next
  assume "\<not> stop_ready e \<and> SetReadDeadline e = None \<and> ReadFromUDP e = Inl err
      \<and> \<not> (is_OpError err \<and> is_Timeout err) \<and> err_select e = Received"
  then show "receivePackets_pass c e
           = ([ErrorDelivered (''error receiving data from inbound connection: ''
                                 @ message err)], Continue)"
    by (auto simp: receivePackets_pass_def offer_error_def)
next
  assume "\<not> stop_ready e \<and> SetReadDeadline e = None \<and> ReadFromUDP e = Inr datagram
      \<and> decodeData c (take maxUDPDataBytes datagram) = Inl derr \<and> err_select e = Received"
  then show "receivePackets_pass c e
           = ([ErrorDelivered (''error decoding inbound data: '' @ derr)], Continue)"
    by (simp add: receivePackets_pass_def offer_error_def)
next
  assume "\<not> stop_ready e \<and> SetReadDeadline e = Some serr \<and> err_select e = Received"
  then show "receivePackets_pass c e
           = ([ErrorDelivered (''error setting read deadline: '' @ serr)], Continue)"
    by (simp add: receivePackets_pass_def offer_error_def)
next
  assume "receivePackets c env n acc = Some evs"
  then show "\<exists>k\<ge>n. stop_signalled (env k)" by (rule receivePackets_exit_stop)
next
  assume ns: "\<forall>k. \<not> stop_signalled (env k)"
  show "receivePackets c env n acc = None"
  proof (cases "receivePackets c env n acc")
    case None then show ?thesis .
  next
    case (Some evs)
    from receivePackets_exit_stop [OF this] ns show ?thesis by blast
  qed
next
  assume "n \<le> k \<and> stop_ready (env k)"
  then obtain evs where "receivePackets c env n acc = Some evs"
    using receivePackets_exits_on_stop [of n k env c acc] by blast
  then show "receivePackets c env n acc \<noteq> None" by simp
qed


theorem receive_loop_exits_only_on_stop_witness:
  "receivePackets_pass sample_connection timeout_pass = ([], Continue) \<and>
   receivePackets_pass sample_connection refused_pass
     = ([ErrorDelivered ''error receiving data from inbound connection: connection refused''],
        Continue) \<and>
   receivePackets_pass sample_connection garbage_pass
     = ([ErrorDelivered ''error decoding inbound data: MalformedFrame''], Continue) \<and>
   receivePackets_pass sample_connection deadline_pass
     = ([ErrorDelivered ''error setting read deadline: closed''], Continue) \<and>
   receivePackets sample_connection stopped_run 0 []
     = Some [ErrorDelivered ''error receiving data from inbound connection: connection refused'',
             ErrorDelivered ''error decoding inbound data: MalformedFrame''] \<and>
   (\<exists>k\<ge>0. stop_signalled (stopped_run k)) \<and>
   (\<forall>k. \<not> stop_signalled (idle_run k)) \<and>
   receivePackets sample_connection idle_run 0 [] = None \<and>
   stop_ready (stopped_run 3) \<and>
   receivePackets sample_connection stopped_run 0 [] \<noteq> None"
proof -
  note T = receive_loop_exits_only_on_stop
  have p1: "receivePackets_pass sample_connection timeout_pass = ([], Continue)"
    by (rule T [where err = "NetError OpError True ''i/o timeout''", THEN conjunct1, THEN mp])
      (simp add: timeout_pass_def is_OpError_def)
  have p2: "receivePackets_pass sample_connection refused_pass
     = ([ErrorDelivered (''error receiving data from inbound connection: ''
           @ message (NetError OpError False ''connection refused''))], Continue)"
    by (rule T [where err = "NetError OpError False ''connection refused''",
          THEN conjunct2, THEN conjunct1, THEN mp])
      (simp add: refused_pass_def is_OpError_def)
  have dec: "decodeData sample_connection (take maxUDPDataBytes [1, 2, 3]) = Inl MalformedFrame"
    by (simp add: sample_connection_def maxUDPDataBytes_def)
      (subst defaultDecodeData.simps, simp add: headerSize_def)
  have p3: "receivePackets_pass sample_connection garbage_pass
     = ([ErrorDelivered (''error decoding inbound data: '' @ MalformedFrame)], Continue)"
    by (rule T [where datagram = "[1, 2, 3]",
          THEN conjunct2, THEN conjunct2, THEN conjunct1, THEN mp])
      (simp add: garbage_pass_def dec)
  have p4: "receivePackets_pass sample_connection deadline_pass
     = ([ErrorDelivered (''error setting read deadline: '' @ ''closed'')], Continue)"
    by (rule T [THEN conjunct2, THEN conjunct2, THEN conjunct2, THEN conjunct1, THEN mp])
      (simp add: deadline_pass_def)
  have p5: "receivePackets_pass sample_connection stop_pass = ([], Return)"
    by (simp add: receivePackets_pass_def stop_pass_def)
  have run: "receivePackets sample_connection stopped_run 0 []
     = Some [ErrorDelivered ''error receiving data from inbound connection: connection refused'',
             ErrorDelivered ''error decoding inbound data: MalformedFrame'']"
    apply (subst receivePackets.simps, simp add: stopped_run_def p1)
    apply (subst receivePackets.simps, simp add: stopped_run_def p2)
    apply (subst receivePackets.simps, simp add: stopped_run_def p3 MalformedFrame_def)
    apply (subst receivePackets.simps, simp add: stopped_run_def p5)
    done
  have ex: "\<exists>k\<ge>0. stop_signalled (stopped_run k)"
    by (rule T [THEN conjunct2, THEN conjunct2, THEN conjunct2, THEN conjunct2,
          THEN conjunct1, THEN mp, OF run])
  have idle: "\<forall>k. \<not> stop_signalled (idle_run k)"
    by (simp add: idle_run_def timeout_pass_def stop_signalled_def)
  have never: "receivePackets sample_connection idle_run 0 [] = None"
    by (rule T [THEN conjunct2, THEN conjunct2, THEN conjunct2, THEN conjunct2,
          THEN conjunct2, THEN conjunct1, THEN mp, OF idle])
  have st: "stop_ready (stopped_run 3)"
    by (simp add: stopped_run_def stop_pass_def)
  have "0 \<le> (3::nat) \<and> stop_ready (stopped_run 3)" using st by simp
  then have exits: "receivePackets sample_connection stopped_run 0 [] \<noteq> None"
    by (rule T [THEN conjunct2, THEN conjunct2, THEN conjunct2, THEN conjunct2,
          THEN conjunct2, THEN conjunct2, THEN mp])
  from p1 p2 p3 p4 run ex idle never st exits show ?thesis
    by (simp add: MalformedFrame_def)
qed

section \<open>The controller-to-device buffer\<close>

lemma attempt_config [simp]: "config (snd (writeFrame_attempt env frame c)) = config c"
  by (simp add: writeFrame_attempt_def Let_def split: option.splits ack_event.splits)

lemma attempt_seq [simp]: "seq (snd (writeFrame_attempt env frame c)) = seq c + 1"
  by (simp add: writeFrame_attempt_def Let_def split: option.splits ack_event.splits)

lemma attempt_sent [simp]:
  "sent (snd (writeFrame_attempt env frame c)) = sent c @ [netFrame_of c frame]"
  by (simp add: writeFrame_attempt_def netFrame_of_def Let_def
      split: option.splits ack_event.splits)

lemma attempt_logged:
  "logged (snd (writeFrame_attempt env frame c))
     = logged c @ (case conn_Send env (length (sent c)) (netFrame_of c frame) of
                     Some err \<Rightarrow> [''error sending frame: '' @ err @ [CHR 0x0A]]
                   | None \<Rightarrow> [])"
  by (cases "FrameType (config c) = FrameTypeDataWithAck";
      cases "ackCh_select env (length (sent c))";
      cases "conn_Send env (length (sent c)) (netFrame_of c frame)")
    (simp_all add: writeFrame_attempt_def netFrame_of_def Let_def)

lemma attempt_returned:
  "fst (writeFrame_attempt env frame c) \<longleftrightarrow>
     FrameType (config c) = FrameTypeDataWithAck \<and>
     (\<exists>ack. ackCh_select env (length (sent c)) = AckReceived ack
            \<and> FData ack = Sprintf_d (unat (seq c)))"
  by (auto simp: writeFrame_attempt_def Let_def split: option.splits ack_event.splits)




lemma int_incr_below: "a < 2 ^ 63 - 1 \<Longrightarrow> int_incr a = a + 1"
  by (simp add: int_incr_def)

lemma loop_continue:
  "a \<le> MaxRetries (config c) \<or> MaxRetries (config c) = - 1 \<Longrightarrow>
   \<not> fst (writeFrame_attempt env frame c) \<Longrightarrow>
   writeFrame_loop env frame a c
     = writeFrame_loop env frame (int_incr a) (snd (writeFrame_attempt env frame c))"
  by (subst writeFrame_loop.simps) (simp add: split_beta)


lemma loop_end:
  "\<not> (a \<le> MaxRetries (config c) \<or> MaxRetries (config c) = - 1) \<Longrightarrow>
   writeFrame_loop env frame a c = Some (LoopEnded, c)"
  by (subst writeFrame_loop.simps) simp

lemma loop_without_return:
  assumes nr: "\<And>c'. config c' = cfg \<Longrightarrow> \<not> fst (writeFrame_attempt env frame c')"
    and R: "MaxRetries cfg = R" "0 \<le> R" "R < 2 ^ 63 - 1"
  shows "config c = cfg \<Longrightarrow> nat (R + 1 - a) = d \<Longrightarrow> 0 \<le> a \<Longrightarrow> a \<le> R + 1 \<Longrightarrow>
         writeFrame_loop env frame a c
           = Some (LoopEnded, ((\<lambda>c. snd (writeFrame_attempt env frame c)) ^^ d) c)"
proof (induction d arbitrary: a c)
  case 0
  then have "a = R + 1" by simp
  with 0 R have "\<not> (a \<le> MaxRetries (config c) \<or> MaxRetries (config c) = - 1)" by simp
  then show ?case by (simp add: loop_end)
next
  case (Suc d)
  let ?c' = "snd (writeFrame_attempt env frame c)"
  from Suc.prems R have le: "a \<le> R" "a < 2 ^ 63 - 1" by simp_all
  have cfg: "config ?c' = cfg" using Suc.prems(1) by simp
  have d': "nat (R + 1 - (a + 1)) = d" using Suc.prems(2) by simp
  have a': "0 \<le> a + 1" "a + 1 \<le> R + 1" using Suc.prems(3) le by simp_all
  have IH: "writeFrame_loop env frame (a + 1) ?c'
       = Some (LoopEnded, ((\<lambda>c. snd (writeFrame_attempt env frame c)) ^^ d) ?c')"
    by (rule Suc.IH [OF cfg d' a'])
  have cond: "a \<le> MaxRetries (config c) \<or> MaxRetries (config c) = - 1"
    using le R Suc.prems(1) by simp
  have "writeFrame_loop env frame a c = writeFrame_loop env frame (int_incr a) ?c'"
    using cond nr [OF Suc.prems(1)] by (rule loop_continue)
  also have "\<dots> = writeFrame_loop env frame (a + 1) ?c'"
    using le by (simp add: int_incr_below)
  also note IH
  finally show ?case by (simp add: funpow_Suc_right del: funpow.simps)
qed


lemma attempts_config [simp]:
  "config (((\<lambda>c. snd (writeFrame_attempt env frame c)) ^^ k) c) = config c"
  by (induction k) simp_all

lemma attempts_seq [simp]:
  "seq (((\<lambda>c. snd (writeFrame_attempt env frame c)) ^^ k) c) = seq c + of_nat k"
  by (induction k) simp_all

lemma attempts_sent:
  "sent (((\<lambda>c. snd (writeFrame_attempt env frame c)) ^^ k) c)
     = sent c @ map (\<lambda>i. \<lparr>ID = cfg_ID (config c), Type = FrameType (config c),
                            Seq = seq c + of_nat i, Data = FData frame\<rparr>) [0..<k]"
  by (induction k) (simp_all add: netFrame_of_def)

lemma attempts_logged_ok:
  "(\<And>n f. conn_Send env n f = None) \<Longrightarrow>
   logged (((\<lambda>c. snd (writeFrame_attempt env frame c)) ^^ k) c) = logged c"
  by (induction k) (simp_all add: attempt_logged)


lemma attempts_logged:
  "logged (((\<lambda>c. snd (writeFrame_attempt env frame c)) ^^ k) c)
     = logged c @ concat (map (\<lambda>i.
         case conn_Send env (length (sent c) + i)
                \<lparr>ID = cfg_ID (config c), Type = FrameType (config c),
                  Seq = seq c + of_nat i, Data = FData frame\<rparr> of
           Some err \<Rightarrow> [''error sending frame: '' @ err @ [CHR 0x0A]]
         | None \<Rightarrow> []) [0..<k])"
  by (induction k) (simp_all add: attempt_logged attempts_sent netFrame_of_def)

lemma unat_seq_plus: "unat ((s :: 8 word) + of_nat k) = (unat s + k) mod 256"
  by (simp add: unat_word_ariths unat_of_nat mod_add_right_eq)

lemma consecutive_from_Nil [simp]: "consecutive_from s []"
  by (simp add: consecutive_from_def)

lemma consecutive_from_single: "consecutive_from s [f] \<longleftrightarrow> Seq f = s"
proof -
  have "unat s < 256" using unsigned_less [of s, where 'a = nat] by simp
  then have "unat s mod 256 = unat s" by simp
  then show ?thesis by (simp add: consecutive_from_def word_unat_eq_iff)
qed

lemma seq_shift:
  "(unat ((s :: 8 word) + of_nat k) + i) mod 256 = (unat s + (i + k)) mod 256"
proof -
  have "(unat (s + of_nat k) + i) mod 256 = ((unat s + k) mod 256 + i) mod 256"
    by (simp only: unat_seq_plus)
  also have "\<dots> = (unat s + k + i) mod 256" by (rule mod_add_left_eq)
  also have "unat s + k + i = unat s + (i + k)" by arith
  finally show ?thesis .
qed

lemma consecutive_append:
  assumes "consecutive_from s xs" and "consecutive_from (s + of_nat (length xs)) ys"
  shows "consecutive_from s (xs @ ys)"
proof -
  have sh: "[length xs..<length xs + length ys] = map (\<lambda>i. i + length xs) [0..<length ys]"
    by (simp add: map_add_upt add.commute)
  have sp: "[0..<length xs + length ys]
      = [0..<length xs] @ [length xs..<length xs + length ys]"
    by (rule upt_add_eq_append) simp
  have "map (\<lambda>i. (unat s + i) mod 256) [0..<length xs + length ys]
      = map (\<lambda>i. (unat s + i) mod 256) [0..<length xs]
        @ map (\<lambda>i. (unat s + i) mod 256) [length xs..<length xs + length ys]"
    by (simp only: sp map_append)
  also have "map (\<lambda>i. (unat s + i) mod 256) [length xs..<length xs + length ys]
      = map (\<lambda>i. (unat (s + of_nat (length xs)) + i) mod 256) [0..<length ys]"
    by (simp only: sh map_map o_def seq_shift)
  finally show ?thesis using assms by (simp add: consecutive_from_def)
qed

lemma attempt_emits:
  "\<exists>new. sent (snd (writeFrame_attempt env frame c)) = sent c @ new
        \<and> consecutive_from (seq c) new
        \<and> seq (snd (writeFrame_attempt env frame c)) = seq c + of_nat (length new)
        \<and> length new = 1"
  by (simp add: consecutive_from_single netFrame_of_def)

lemma emits_trans:
  assumes "sent c1 = sent c @ n1" "consecutive_from (seq c) n1" "seq c1 = seq c + of_nat (length n1)"
    and "sent c2 = sent c1 @ n2" "consecutive_from (seq c1) n2" "seq c2 = seq c1 + of_nat (length n2)"
  shows "sent c2 = sent c @ (n1 @ n2) \<and> consecutive_from (seq c) (n1 @ n2)
       \<and> seq c2 = seq c + of_nat (length (n1 @ n2))"
  using assms by (simp add: consecutive_append)

lemma loop_emits:
  assumes a: "writeFrame_loop env frame a c = Some y"
  shows "\<exists>new. sent (snd y) = sent c @ new \<and> consecutive_from (seq c) new
              \<and> seq (snd y) = seq c + of_nat (length new)"
proof (rule writeFrame_loop.raw_induct
    [where P = "\<lambda>env frame a c y. \<exists>new. sent (snd y) = sent c @ new
                  \<and> consecutive_from (seq c) new \<and> seq (snd y) = seq c + of_nat (length new)",
     OF _ a])
  fix rp :: "c2d_env \<Rightarrow> Frame \<Rightarrow> int \<Rightarrow> c2dBuffer \<Rightarrow> (writeFrame_exit \<times> c2dBuffer) option"
  fix env frame a c y
  assume IH: "\<And>env frame a c y. rp env frame a c = Some y \<Longrightarrow>
      \<exists>new. sent (snd y) = sent c @ new \<and> consecutive_from (seq c) new
            \<and> seq (snd y) = seq c + of_nat (length new)"
  assume step: "(if a \<le> MaxRetries (config c) \<or> MaxRetries (config c) = - 1
      then case writeFrame_attempt env frame c of
           (returned, c') \<Rightarrow>
             if returned then Some (ReturnedOnAck, c') else rp env frame (int_incr a) c'
      else Some (LoopEnded, c)) = Some y"
  let ?c1 = "snd (writeFrame_attempt env frame c)"
  have one: "sent ?c1 = sent c @ [netFrame_of c frame]"
    "consecutive_from (seq c) [netFrame_of c frame]"
    "seq ?c1 = seq c + of_nat (length [netFrame_of c frame])"
    by (simp_all add: consecutive_from_single netFrame_of_def)
  show "\<exists>new. sent (snd y) = sent c @ new \<and> consecutive_from (seq c) new
            \<and> seq (snd y) = seq c + of_nat (length new)"
  proof (cases "a \<le> MaxRetries (config c) \<or> MaxRetries (config c) = - 1")
    case False
    with step have "y = (LoopEnded, c)" by simp
    then have "sent (snd y) = sent c @ [] \<and> consecutive_from (seq c) []
            \<and> seq (snd y) = seq c + of_nat (length ([] :: netFrame list))" by simp
    then show ?thesis by blast
  next
    case True
    show ?thesis
    proof (cases "fst (writeFrame_attempt env frame c)")
      case r: True
      with True step have "snd y = ?c1" by (auto simp: split_beta)
      with one show ?thesis by (simp only:) blast
    next
      case r: False
      with True step have "rp env frame (int_incr a) ?c1 = Some y" by (simp add: split_beta)
      from IH [OF this] obtain n2 where n2: "sent (snd y) = sent ?c1 @ n2"
        "consecutive_from (seq ?c1) n2" "seq (snd y) = seq ?c1 + of_nat (length n2)"
        by blast
      from emits_trans [OF one n2] show ?thesis by blast
    qed
  qed
qed

lemma writeFrames_emits:
  "writeFrames env frames c = Some c' \<Longrightarrow>
   \<exists>new. sent c' = sent c @ new \<and> consecutive_from (seq c) new
         \<and> seq c' = seq c + of_nat (length new)"
proof (induction frames arbitrary: c)
  case Nil
  then have "sent c' = sent c @ [] \<and> consecutive_from (seq c) []
         \<and> seq c' = seq c + of_nat (length ([] :: netFrame list))" by simp
  then show ?case by blast
next
  case (Cons frame frames)
  from Cons.prems obtain x c1 where w: "writeFrame env frame c = Some (x, c1)"
    and r: "writeFrames env frames c1 = Some c'"
    by (auto split: option.splits)
  from w have "writeFrame_loop env frame 0 c = Some (x, c1)" by (simp add: writeFrame_def)
  from loop_emits [OF this] obtain n1 where n1: "sent c1 = sent c @ n1"
    "consecutive_from (seq c) n1" "seq c1 = seq c + of_nat (length n1)" by auto
  from Cons.IH [OF r] obtain n2 where n2: "sent c' = sent c1 @ n2"
    "consecutive_from (seq c1) n2" "seq c' = seq c1 + of_nat (length n2)" by blast
  from emits_trans [OF n1 n2] show ?case by blast
qed








lemmas sample_defs = sample_buffer_def sample_item_def silent_env_def acking_env_def
  writeFrame_attempt_def Let_def int_incr_def
  FrameTypeData_def FrameTypeDataWithAck_def

text \<open>
  C1, as the claim states it, fails in one part: the abandoned item is not reported.
  With \<open>MaxRetries = 0\<close>, every send succeeding and no acknowledgment arriving,
  \<open>writeFrame\<close> sends the frame once and leaves the loop with nothing logged; it
  returns no value to its caller either.
\<close>

theorem no_ack_not_reported_counterexample:
  "writeFrame silent_env sample_item (sample_buffer FrameTypeDataWithAck 0 0)
     = Some (LoopEnded,
             (sample_buffer FrameTypeDataWithAck 0 0)
               \<lparr>seq := 1,
                sent := [\<lparr>ID = 11, Type = FrameTypeDataWithAck, Seq = 0, Data = [1, 2, 3]\<rparr>],
                logged := []\<rparr>)"
  apply (simp add: writeFrame_def)
  apply (subst writeFrame_loop.simps, simp add: sample_defs)
  apply (subst writeFrame_loop.simps, simp add: sample_defs)
  done

text \<open>
  C2 does not hold on the code: the loop of \<open>writeFrame\<close> does not leave after the
  send of a frame that needs no acknowledgment. With frame type Data and
  \<open>MaxRetries = 1\<close> one queued item is sent twice, under the sequence numbers 0 and 1.
\<close>

theorem Data_frame_sent_again:
  "writeFrame silent_env sample_item (sample_buffer FrameTypeData 1 0)
     = Some (LoopEnded,
             (sample_buffer FrameTypeData 1 0)
               \<lparr>seq := 2,
                sent := [\<lparr>ID = 11, Type = FrameTypeData, Seq = 0, Data = [1, 2, 3]\<rparr>,
                         \<lparr>ID = 11, Type = FrameTypeData, Seq = 1, Data = [1, 2, 3]\<rparr>],
                logged := []\<rparr>)"
  apply (simp add: writeFrame_def)
  apply (subst writeFrame_loop.simps, simp add: sample_defs)
  apply (subst writeFrame_loop.simps, simp add: sample_defs)
  apply (subst writeFrame_loop.simps, simp add: sample_defs)
  done


lemma Sprintf_d_8: "Sprintf_d 8 = [56]"
  by (subst Sprintf_d.simps) simp

text \<open>
  C1, amended. With \<open>MaxRetries = R\<close>, \<open>0 \<le> R\<close> and \<open>R\<close> below the largest \<^verbatim>\<open>int\<close>, and no
  acknowledgment ever arriving, \<open>writeFrame\<close> hands the frame to the connection exactly
  \<open>R + 1\<close> times, with the same payload and the sequence numbers that follow one
  another from the counter, and then leaves the loop; the only lines logged are those
  of sends that failed themselves, so the abandoned item is not reported; and
  \<open>writeFrames\<close> goes on with the next queued item from the state reached.
\<close>

theorem no_ack_sends_once_per_attempt:
  assumes "MaxRetries (config c) = R" and "0 \<le> R" and "R < 2 ^ 63 - 1"
    and "\<forall>n. ackCh_select env n = TimedOut"
  shows "\<exists>c'. writeFrame env frame c = Some (LoopEnded, c') \<and>
           sent c' = sent c @ map (\<lambda>i. \<lparr>ID = cfg_ID (config c), Type = FrameType (config c),
                                         Seq = seq c + of_nat i, Data = FData frame\<rparr>)
                                 [0..<nat (R + 1)] \<and>
           length (sent c') = length (sent c) + nat (R + 1) \<and>
           seq c' = seq c + of_nat (nat (R + 1)) \<and>
           logged c' = logged c @ concat (map (\<lambda>i.
               case conn_Send env (length (sent c) + i)
                      \<lparr>ID = cfg_ID (config c), Type = FrameType (config c),
                        Seq = seq c + of_nat i, Data = FData frame\<rparr> of
                 Some err \<Rightarrow> [''error sending frame: '' @ err @ [CHR 0x0A]]
               | None \<Rightarrow> []) [0..<nat (R + 1)]) \<and>
           writeFrames env (frame # frames) c = writeFrames env frames c'"
proof -
  let ?f = "\<lambda>c. snd (writeFrame_attempt env frame c)"
  let ?c' = "(?f ^^ nat (R + 1)) c"
  have nr: "\<And>c'. config c' = config c \<Longrightarrow> \<not> fst (writeFrame_attempt env frame c')"
    using assms(4) by (simp add: attempt_returned)
  have "writeFrame_loop env frame 0 c = Some (LoopEnded, ?c')"
    by (rule loop_without_return [OF nr assms(1,2,3) refl]) (use assms(2) in simp_all)
  then have w: "writeFrame env frame c = Some (LoopEnded, ?c')"
    by (simp add: writeFrame_def)
  have next_item: "writeFrames env (frame # frames) c = writeFrames env frames ?c'"
    by (simp add: w)
  show ?thesis
    using w next_item
      attempts_sent [where env = env and frame = frame and k = "nat (R + 1)" and c = c]
      attempts_logged [where env = env and frame = frame and k = "nat (R + 1)" and c = c]
    by (intro exI [of _ ?c']) simp
qed

theorem no_ack_sends_once_per_attempt_witness:
  "MaxRetries (config (sample_buffer FrameTypeDataWithAck 2 0)) = 2 \<and>
   (0 :: int) \<le> 2 \<and> (2 :: int) < 2 ^ 63 - 1 \<and>
   (\<forall>n. ackCh_select silent_env n = TimedOut) \<and>
   (\<exists>c'. writeFrame silent_env sample_item (sample_buffer FrameTypeDataWithAck 2 0)
            = Some (LoopEnded, c') \<and>
         map Seq (sent c') = [0, 1, 2] \<and> seq c' = 3 \<and> logged c' = [] \<and>
         writeFrames silent_env [sample_item, sample_item]
             (sample_buffer FrameTypeDataWithAck 2 0)
           = writeFrames silent_env [sample_item] c')"
proof -
  have h: "MaxRetries (config (sample_buffer FrameTypeDataWithAck 2 0)) = 2"
    "(0 :: int) \<le> 2" "(2 :: int) < 2 ^ 63 - 1"
    "\<forall>n. ackCh_select silent_env n = TimedOut"
    by (simp_all add: sample_buffer_def silent_env_def)
  have up: "[0..<nat (2 + 1)] = [0, 1, 2]"
    by (simp add: upt_rec)
  from no_ack_sends_once_per_attempt [OF h, of sample_item "[sample_item]"]
  obtain c' where c':
    "writeFrame silent_env sample_item (sample_buffer FrameTypeDataWithAck 2 0)
       = Some (LoopEnded, c')"
    "sent c' = sent (sample_buffer FrameTypeDataWithAck 2 0)
       @ map (\<lambda>i. \<lparr>ID = cfg_ID (config (sample_buffer FrameTypeDataWithAck 2 0)),
                     Type = FrameType (config (sample_buffer FrameTypeDataWithAck 2 0)),
                     Seq = seq (sample_buffer FrameTypeDataWithAck 2 0) + of_nat i,
                     Data = FData sample_item\<rparr>) [0..<nat (2 + 1)]"
    "seq c' = seq (sample_buffer FrameTypeDataWithAck 2 0) + of_nat (nat (2 + 1))"
    "logged c' = logged (sample_buffer FrameTypeDataWithAck 2 0) @ concat (map (\<lambda>i.
               case conn_Send silent_env
                      (length (sent (sample_buffer FrameTypeDataWithAck 2 0)) + i)
                      \<lparr>ID = cfg_ID (config (sample_buffer FrameTypeDataWithAck 2 0)),
                        Type = FrameType (config (sample_buffer FrameTypeDataWithAck 2 0)),
                        Seq = seq (sample_buffer FrameTypeDataWithAck 2 0) + of_nat i,
                        Data = FData sample_item\<rparr> of
                 Some err \<Rightarrow> [''error sending frame: '' @ err @ [CHR 0x0A]]
               | None \<Rightarrow> []) [0..<nat (2 + 1)])"
    "writeFrames silent_env [sample_item, sample_item]
         (sample_buffer FrameTypeDataWithAck 2 0)
       = writeFrames silent_env [sample_item] c'"
    by blast
  have m1: "map Seq (sent c') = [0, 1, 2]"
    by (simp only: c'(2) up) (simp add: sample_buffer_def)
  have m2: "seq c' = 3"
    by (simp only: c'(3)) (simp add: sample_buffer_def)
  have m3: "logged c' = []"
    by (simp only: c'(4) up) (simp add: sample_buffer_def silent_env_def)
  have "\<exists>c'. writeFrame silent_env sample_item (sample_buffer FrameTypeDataWithAck 2 0)
            = Some (LoopEnded, c') \<and>
         map Seq (sent c') = [0, 1, 2] \<and> seq c' = 3 \<and> logged c' = [] \<and>
         writeFrames silent_env [sample_item, sample_item]
             (sample_buffer FrameTypeDataWithAck 2 0)
           = writeFrames silent_env [sample_item] c'"
    by (rule exI [of _ c']) (intro conjI c'(1) m1 m2 m3 c'(5))
  with h show ?thesis by (intro conjI)
qed


text \<open>
  C4. Every attempt hands one frame to the connection, stamped with the counter, and
  increments the counter by exactly one, whether the send succeeds or not. So the
  frames that one call of \<open>writeFrame\<close>, and any run of \<open>writeFrames\<close> over the queued
  items, hand to the connection carry the sequence numbers
  \<open>s, s + 1, \<dots>, s + K - 1\<close> modulo 256, where \<open>s\<close> is the counter before and \<open>K\<close>
  the number of frames, and the counter ends at \<open>s + K\<close>. The counter is a field of the
  buffer that only the body of the loop of \<open>writeFrame\<close> assigns.
\<close>

theorem sequence_numbers_consecutive:
  "seq (snd (writeFrame_attempt env frame c)) = seq c + 1 \<and>
   sent (snd (writeFrame_attempt env frame c)) = sent c @ [netFrame_of c frame] \<and>
   Seq (netFrame_of c frame) = seq c \<and>
   (writeFrame env frame c = Some (x, c')
      \<longrightarrow> (\<exists>new. sent c' = sent c @ new \<and> consecutive_from (seq c) new
                 \<and> seq c' = seq c + of_nat (length new))) \<and>
   (writeFrames env frames c = Some c''
      \<longrightarrow> (\<exists>new. sent c'' = sent c @ new \<and> consecutive_from (seq c) new
                 \<and> seq c'' = seq c + of_nat (length new)))"
proof (intro conjI impI)
  show "seq (snd (writeFrame_attempt env frame c)) = seq c + 1" by simp
  show "sent (snd (writeFrame_attempt env frame c)) = sent c @ [netFrame_of c frame]" by simp
  show "Seq (netFrame_of c frame) = seq c" by (simp add: netFrame_of_def)
next
  assume "writeFrame env frame c = Some (x, c')"
  then have "writeFrame_loop env frame 0 c = Some (x, c')" by (simp add: writeFrame_def)
  from loop_emits [OF this]
  show "\<exists>new. sent c' = sent c @ new \<and> consecutive_from (seq c) new
                 \<and> seq c' = seq c + of_nat (length new)" by simp
next
  assume "writeFrames env frames c = Some c''"
  then show "\<exists>new. sent c'' = sent c @ new \<and> consecutive_from (seq c) new
                 \<and> seq c'' = seq c + of_nat (length new)"
    by (rule writeFrames_emits)
qed


theorem sequence_numbers_consecutive_witness:
  "writeFrames silent_env [sample_item, sample_item] (sample_buffer FrameTypeDataWithAck 1 254)
     = Some ((sample_buffer FrameTypeDataWithAck 1 254)
               \<lparr>seq := 2,
                sent := [\<lparr>ID = 11, Type = FrameTypeDataWithAck, Seq = 254, Data = [1, 2, 3]\<rparr>,
                         \<lparr>ID = 11, Type = FrameTypeDataWithAck, Seq = 255, Data = [1, 2, 3]\<rparr>,
                         \<lparr>ID = 11, Type = FrameTypeDataWithAck, Seq = 0, Data = [1, 2, 3]\<rparr>,
                         \<lparr>ID = 11, Type = FrameTypeDataWithAck, Seq = 1, Data = [1, 2, 3]\<rparr>],
                logged := []\<rparr>) \<and>
   consecutive_from 254
     [\<lparr>ID = 11, Type = FrameTypeDataWithAck, Seq = 254, Data = [1, 2, 3]\<rparr>,
      \<lparr>ID = 11, Type = FrameTypeDataWithAck, Seq = 255, Data = [1, 2, 3]\<rparr>,
      \<lparr>ID = 11, Type = FrameTypeDataWithAck, Seq = 0, Data = [1, 2, 3]\<rparr>,
      \<lparr>ID = 11, Type = FrameTypeDataWithAck, Seq = 1, Data = [1, 2, 3]\<rparr>]"
proof -
  let ?c = "sample_buffer FrameTypeDataWithAck 1 254"
  let ?fs = "[\<lparr>ID = 11, Type = FrameTypeDataWithAck, Seq = 254, Data = [1, 2, 3]\<rparr>,
      \<lparr>ID = 11, Type = FrameTypeDataWithAck, Seq = 255, Data = [1, 2, 3]\<rparr>,
      \<lparr>ID = 11, Type = FrameTypeDataWithAck, Seq = 0, Data = [1, 2, 3]\<rparr>,
      \<lparr>ID = 11, Type = FrameTypeDataWithAck, Seq = 1, Data = [1, 2, 3]\<rparr>]"
  have run: "writeFrames silent_env [sample_item, sample_item] ?c
     = Some (?c\<lparr>seq := 2, sent := ?fs, logged := []\<rparr>)"
    apply (simp add: writeFrame_def)
    apply (subst writeFrame_loop.simps, simp add: sample_defs)
    apply (subst writeFrame_loop.simps, simp add: sample_defs)
    apply (subst writeFrame_loop.simps, simp add: sample_defs writeFrame_def)
    apply (subst writeFrame_loop.simps, simp add: sample_defs)
    apply (subst writeFrame_loop.simps, simp add: sample_defs)
    apply (subst writeFrame_loop.simps, simp add: sample_defs)
    done
  from sequence_numbers_consecutive [THEN conjunct2, THEN conjunct2, THEN conjunct2,
      THEN conjunct2, THEN mp, OF run]
  obtain new where "sent (?c\<lparr>seq := 2, sent := ?fs, logged := []\<rparr>) = sent ?c @ new"
    and c: "consecutive_from (seq ?c) new"
    by blast
  then have "new = ?fs" by (simp add: sample_buffer_def)
  with c have "consecutive_from 254 ?fs" by (simp add: sample_buffer_def)
  with run show ?thesis by (intro conjI)
qed



section \<open>Unbounded retries\<close>

text \<open>At the largest \<^verbatim>\<open>int\<close> the counter can never exceed \<open>MaxRetries\<close>: without an
  acknowledgment the loop does not end, as for \<open>MaxRetries = - 1\<close>.\<close>

lemma loop_unbounded_never_ends:
  assumes a: "writeFrame_loop env frame a c = Some y"
  shows "\<not> ((MaxRetries (config c) = 2 ^ 63 - 1 \<and> a \<le> 2 ^ 63 - 1 \<or> MaxRetries (config c) = - 1)
            \<and> (\<forall>n. ackCh_select env n = TimedOut))"
proof (rule writeFrame_loop.raw_induct
    [where P = "\<lambda>env frame a c y.
       \<not> ((MaxRetries (config c) = 2 ^ 63 - 1 \<and> a \<le> 2 ^ 63 - 1 \<or> MaxRetries (config c) = - 1)
            \<and> (\<forall>n. ackCh_select env n = TimedOut))", OF _ a])
  fix rp :: "c2d_env \<Rightarrow> Frame \<Rightarrow> int \<Rightarrow> c2dBuffer \<Rightarrow> (writeFrame_exit \<times> c2dBuffer) option"
  fix env frame a c y
  assume IH: "\<And>env frame a c y. rp env frame a c = Some y \<Longrightarrow>
       \<not> ((MaxRetries (config c) = 2 ^ 63 - 1 \<and> a \<le> 2 ^ 63 - 1 \<or> MaxRetries (config c) = - 1)
            \<and> (\<forall>n. ackCh_select env n = TimedOut))"
  assume step: "(if a \<le> MaxRetries (config c) \<or> MaxRetries (config c) = - 1
      then case writeFrame_attempt env frame c of
           (returned, c') \<Rightarrow>
             if returned then Some (ReturnedOnAck, c') else rp env frame (int_incr a) c'
      else Some (LoopEnded, c)) = Some y"
  let ?c1 = "snd (writeFrame_attempt env frame c)"
  show "\<not> ((MaxRetries (config c) = 2 ^ 63 - 1 \<and> a \<le> 2 ^ 63 - 1 \<or> MaxRetries (config c) = - 1)
            \<and> (\<forall>n. ackCh_select env n = TimedOut))"
  proof
    assume h: "(MaxRetries (config c) = 2 ^ 63 - 1 \<and> a \<le> 2 ^ 63 - 1 \<or> MaxRetries (config c) = - 1)
            \<and> (\<forall>n. ackCh_select env n = TimedOut)"
    then have cond: "a \<le> MaxRetries (config c) \<or> MaxRetries (config c) = - 1" by auto
    from h have nr: "\<not> fst (writeFrame_attempt env frame c)" by (simp add: attempt_returned)
    from cond nr step have "rp env frame (int_incr a) ?c1 = Some y" by (simp add: split_beta)
    from IH [OF this] have
      "\<not> ((MaxRetries (config c) = 2 ^ 63 - 1 \<and> int_incr a \<le> 2 ^ 63 - 1
              \<or> MaxRetries (config c) = - 1)
            \<and> (\<forall>n. ackCh_select env n = TimedOut))" by simp
    moreover have "MaxRetries (config c) = 2 ^ 63 - 1 \<and> int_incr a \<le> 2 ^ 63 - 1
              \<or> MaxRetries (config c) = - 1"
    proof (cases "MaxRetries (config c) = - 1")
      case True
      then show ?thesis by simp
    next
      case False
      with h have "MaxRetries (config c) = 2 ^ 63 - 1" "a \<le> 2 ^ 63 - 1" by auto
      then show ?thesis by (simp add: int_incr_def)
    qed
    ultimately show False using h by blast
  qed
qed

lemma writeFrame_unbounded_never_returns:
  assumes "MaxRetries (config c) = 2 ^ 63 - 1 \<or> MaxRetries (config c) = - 1"
    and "\<forall>n. ackCh_select env n = TimedOut"
  shows "writeFrame env frame c = None"
proof (cases "writeFrame env frame c")
  case None
  then show ?thesis .
next
  case (Some y)
  then have "writeFrame_loop env frame 0 c = Some y" by (simp add: writeFrame_def)
  from loop_unbounded_never_ends [OF this] assms show ?thesis by simp
qed

section \<open>The frame receiver on a timeout\<close>

text \<open>Unlike the loop of the connection, the frame receiver ends the process when a
  read times out.\<close>

lemma frameReceiver_timeout_fatal:
  "SetReadDeadline e = None \<Longrightarrow> ReadFromUDP e = Inl err \<Longrightarrow> is_net_Error err \<Longrightarrow>
   is_Timeout err \<Longrightarrow>
   frameReceiver_Receive f e = Fatal ''detected a probable disconnection''"
  by (simp add: frameReceiver_Receive_def)

lemma frameReceiver_timeout_pass:
  "frameReceiver_Receive f timeout_pass = Fatal ''detected a probable disconnection''"
  by (simp add: frameReceiver_Receive_def timeout_pass_def is_net_Error_def)

end
